theory Spec2Isabelle
  imports Complex_Main
begin

section \<open>Spectrum computation and parameter sweeps of \<open>QubitBaseClass\<close>\<close>

text \<open>
  A shallow embedding of \<^verbatim>\<open>scqubits/core/qubit_base.py\<close>: the single-point solves
  \<^verbatim>\<open>eigenvals\<close>, \<^verbatim>\<open>eigensys\<close> and \<^verbatim>\<open>matrixelement_table\<close>, the sweep
  \<^verbatim>\<open>get_spectrum_vs_paramvals\<close>, the dispersion computation and the swept matrix
  elements. Python names that start with an underscore lose it
  (\<^verbatim>\<open>_evals_calc\<close> is \<open>evals_calc\<close>).

  Floating-point numbers are modelled as real numbers and complex floats as complex
  numbers; rounding, infinities and NaN are outside the model.
\<close>

subsection \<open>Exceptions\<close>

text \<open>
  The first five constructors are the Python exceptions that the modelled code and the
  libraries it calls can raise. \<open>DimensionError\<close>, \<open>NumericalError\<close> and
  \<open>UnknownOperatorError\<close> are the names of the specification's error taxonomy; no
  function of the source raises them.
\<close>

datatype error =
    AttributeError | TypeError | ValueError | IndexError | LinAlgError
  | DimensionError | NumericalError | UnknownOperatorError

subsection \<open>The system object\<close>

text \<open>
  The mutable part of a system is its instance dictionary of numeric parameters. Every
  method takes the attributes and returns them, possibly changed, next to its result;
  an exception is \<open>Inl\<close>, and the attributes returned with it are those at the moment
  it was raised.
\<close>

type_synonym attrs = "string \<rightharpoonup> real"
type_synonym cmatrix = "complex list list"

text \<open>
  What the abstract class leaves open, and what it takes from outside:
  the abstract methods \<^verbatim>\<open>hamiltonian\<close> and \<^verbatim>\<open>hilbertdim\<close>, the operator-producing
  methods of the concrete class (by name), \<^verbatim>\<open>_init_params\<close>, the numerical kernel behind
  \<^verbatim>\<open>scipy.linalg.eigh\<close> (a full decomposition: all eigenvalues in ascending order and
  the matrix whose columns are the matching eigenvectors, or no result when it does not
  converge), and \<^verbatim>\<open>settings.NUM_CPUS\<close>.
\<close>

record qenv =
  hamiltonian :: "attrs \<Rightarrow> cmatrix"
  hilbertdim :: "attrs \<Rightarrow> int"
  operators :: "string \<rightharpoonup> (attrs \<Rightarrow> cmatrix)"
  init_params :: "string list"
  lapack :: "cmatrix \<Rightarrow> (real list \<times> cmatrix) option"
  NUM_CPUS :: int

definition getattr :: "attrs \<Rightarrow> string \<Rightarrow> error + real" where
  "getattr s name = (case s name of None \<Rightarrow> Inl AttributeError | Some v \<Rightarrow> Inr v)"

definition setattr :: "attrs \<Rightarrow> string \<Rightarrow> real \<Rightarrow> attrs" where
  "setattr s name v = s(name \<mapsto> v)"

text \<open>\<^verbatim>\<open>get_initdata\<close>: \<^verbatim>\<open>{name: getattr(self, name) for name in self._init_params}\<close>.\<close>

fun initdata_of :: "attrs \<Rightarrow> string list \<Rightarrow> error + (string \<times> real) list" where
  "initdata_of s [] = Inr []"
| "initdata_of s (name # names) =
     (case getattr s name of
        Inl e \<Rightarrow> Inl e
      | Inr v \<Rightarrow> (case initdata_of s names of
                    Inl e \<Rightarrow> Inl e
                  | Inr kvs \<Rightarrow> Inr ((name, v) # kvs)))"

definition get_initdata :: "qenv \<Rightarrow> attrs \<Rightarrow> error + (string \<times> real) list" where
  "get_initdata env s = initdata_of s (init_params env)"

subsection \<open>The library calls\<close>

text \<open>
  \<^verbatim>\<open>scipy.linalg.eigh(M, eigvals=(lo, hi))\<close>: \<^verbatim>\<open>ValueError\<close> unless \<open>M\<close> is square and
  \<open>0 \<le> lo \<le> hi < n\<close>, \<^verbatim>\<open>LinAlgError\<close> when the computation does not converge;
  otherwise the eigenvalues number \<open>lo\<close> to \<open>hi\<close> and the matching columns.
\<close>

definition slice :: "int \<Rightarrow> int \<Rightarrow> 'a list \<Rightarrow> 'a list" where
  "slice lo hi xs = take (nat (hi - lo + 1)) (drop (nat lo) xs)"

definition is_square :: "'a list list \<Rightarrow> bool" where
  "is_square M = list_all (\<lambda>row. length row = length M) M"

definition eigh :: "qenv \<Rightarrow> cmatrix \<Rightarrow> int \<times> int \<Rightarrow> error + real list \<times> cmatrix" where
  "eigh env M eigvals =
     (case eigvals of (lo, hi) \<Rightarrow>
        if \<not> (is_square M \<and> 0 \<le> lo \<and> lo \<le> hi \<and> hi < int (length M)) then Inl ValueError
        else (case lapack env M of
                None \<Rightarrow> Inl LinAlgError
              | Some (w, v) \<Rightarrow> Inr (slice lo hi w, map (slice lo hi) v)))"

text \<open>
  Modelled from the spec: \<^verbatim>\<open>order_eigensystem\<close> of \<^verbatim>\<open>scqubits.utils.spectrum_utils\<close>,
  which is not part of the source at hand. The specification: eigenvalues are returned
  ascending and the eigenvectors are reordered to match. The columns of \<open>evecs\<close> are
  permuted by the permutation that sorts \<open>evals\<close>.
\<close>

definition argsort :: "real list \<Rightarrow> nat list" where
  "argsort evals = map snd (sort_key fst (zip evals [0..<length evals]))"

definition order_eigensystem :: "real list \<Rightarrow> cmatrix \<Rightarrow> real list \<times> cmatrix" where
  "order_eigensystem evals evecs =
     (let idx = argsort evals
      in (map (\<lambda>k. evals ! k) idx, map (\<lambda>row. map (\<lambda>k. row ! k) idx) evecs))"

subsection \<open>Single-point solves\<close>

definition evals_calc :: "qenv \<Rightarrow> attrs \<Rightarrow> int \<Rightarrow> error + real list" where
  "evals_calc env s evals_count =
     (let hamiltonian_mat = hamiltonian env s
      in case eigh env hamiltonian_mat (0, evals_count - 1) of
           Inl e \<Rightarrow> Inl e
         | Inr (evals, _) \<Rightarrow> Inr (sort evals))"

definition esys_calc :: "qenv \<Rightarrow> attrs \<Rightarrow> int \<Rightarrow> error + real list \<times> cmatrix" where
  "esys_calc env s evals_count =
     (let hamiltonian_mat = hamiltonian env s
      in case eigh env hamiltonian_mat (0, evals_count - 1) of
           Inl e \<Rightarrow> Inl e
         | Inr (evals, evecs) \<Rightarrow> Inr (order_eigensystem evals evecs))"

text \<open>
  \<^verbatim>\<open>eigenvals\<close> and \<^verbatim>\<open>eigensys\<close> as called with \<^verbatim>\<open>filename=None\<close> and
  \<^verbatim>\<open>return_spectrumdata=False\<close>, the way every caller in the file calls them. (The two
  flags only wrap the same arrays in a container and hand it to the serialization
  sink.) Neither assigns an attribute.
\<close>

definition eigenvals :: "qenv \<Rightarrow> int \<Rightarrow> attrs \<Rightarrow> (error + real list) \<times> attrs" where
  "eigenvals env evals_count s = (evals_calc env s evals_count, s)"

definition eigensys :: "qenv \<Rightarrow> int \<Rightarrow> attrs \<Rightarrow> (error + real list \<times> cmatrix) \<times> attrs" where
  "eigensys env evals_count s = (esys_calc env s evals_count, s)"

definition esys_for_paramval ::
  "qenv \<Rightarrow> string \<Rightarrow> int \<Rightarrow> real \<Rightarrow> attrs \<Rightarrow> (error + real list \<times> cmatrix) \<times> attrs" where
  "esys_for_paramval env param_name evals_count paramval s =
     eigensys env evals_count (setattr s param_name paramval)"

definition evals_for_paramval ::
  "qenv \<Rightarrow> string \<Rightarrow> int \<Rightarrow> real \<Rightarrow> attrs \<Rightarrow> (error + real list) \<times> attrs" where
  "evals_for_paramval env param_name evals_count paramval s =
     eigenvals env evals_count (setattr s param_name paramval)"

subsection \<open>The map primitive\<close>

text \<open>
  Python's built-in \<^verbatim>\<open>map\<close>, consumed by \<^verbatim>\<open>list\<close>: the calls run one after the other on
  the same object, and the first exception ends the iteration.
\<close>

fun map_seq ::
  "('a \<Rightarrow> attrs \<Rightarrow> (error + 'b) \<times> attrs) \<Rightarrow> 'a list \<Rightarrow> attrs \<Rightarrow> (error + 'b list) \<times> attrs" where
  "map_seq f [] s = (Inr [], s)"
| "map_seq f (x # xs) s =
     (case f x s of
        (Inl e, s') \<Rightarrow> (Inl e, s')
      | (Inr y, s') \<Rightarrow>
          (case map_seq f xs s' of
             (Inl e, s'') \<Rightarrow> (Inl e, s'')
           | (Inr ys, s'') \<Rightarrow> (Inr (y # ys), s'')))"

text \<open>
  A pool's \<^verbatim>\<open>map\<close>: every call runs on a copy of the object as it is at the call, the
  caller's object is not touched, and the results come back in input order. When
  several calls raise, the model reports the first in input order.
\<close>

fun collect :: "(error + 'b) list \<Rightarrow> error + 'b list" where
  "collect [] = Inr []"
| "collect (r # rs) =
     (case r of
        Inl e \<Rightarrow> Inl e
      | Inr y \<Rightarrow> (case collect rs of Inl e \<Rightarrow> Inl e | Inr ys \<Rightarrow> Inr (y # ys)))"

definition map_par ::
  "('a \<Rightarrow> attrs \<Rightarrow> (error + 'b) \<times> attrs) \<Rightarrow> 'a list \<Rightarrow> attrs \<Rightarrow> (error + 'b list) \<times> attrs" where
  "map_par f xs s = (collect (map (\<lambda>x. fst (f x s)) xs), s)"

text \<open>
  Modelled from the spec: \<^verbatim>\<open>get_map_method\<close> of \<^verbatim>\<open>scqubits.utils.cpu_switch\<close>, which is
  not part of the source at hand. The specification: a parallel-map primitive selectable
  by worker count, where a worker count of 1 is plain sequential mapping and otherwise
  each worker operates on an independent copy of the system.
\<close>

definition get_map_method ::
  "int \<Rightarrow> ('a \<Rightarrow> attrs \<Rightarrow> (error + 'b) \<times> attrs) \<Rightarrow> 'a list \<Rightarrow> attrs \<Rightarrow> (error + 'b list) \<times> attrs" where
  "get_map_method num_cpus = (if num_cpus = 1 then map_seq else map_par)"

text \<open>\<^verbatim>\<open>num_cpus or settings.NUM_CPUS\<close>: \<^verbatim>\<open>None\<close> and \<open>0\<close> are falsy.\<close>

definition num_cpus_or :: "qenv \<Rightarrow> int option \<Rightarrow> int" where
  "num_cpus_or env num_cpus =
     (case num_cpus of None \<Rightarrow> NUM_CPUS env | Some n \<Rightarrow> if n = 0 then NUM_CPUS env else n)"

subsection \<open>The parameter sweep\<close>

record spectrumdata =
  energy_table :: "real list list"
  system_params :: "(string \<times> real) list"
  param_name :: string
  param_vals :: "real list"
  state_table :: "cmatrix list option"
  matrixelem_table :: "cmatrix list option"

text \<open>
  Modelled from the spec: \<^verbatim>\<open>recast_esys_mapdata\<close> of \<^verbatim>\<open>scqubits.utils.spectrum_utils\<close>,
  which is not part of the source at hand. The specification: the energies form a table
  indexed by parameter position, the eigenvectors an ordered collection indexed by
  parameter position.
\<close>

definition recast_esys_mapdata ::
  "(real list \<times> cmatrix) list \<Rightarrow> real list list \<times> cmatrix list" where
  "recast_esys_mapdata esys_mapdata = (map fst esys_mapdata, map snd esys_mapdata)"

text \<open>
  \<^verbatim>\<open>eigenvalue_table[param_index] -= eigenvalue_table[param_index][0]\<close>: the right-hand
  side is read first, as a scalar; reading it from an empty row raises.
\<close>

definition subtract_ground_row :: "real list \<Rightarrow> error + real list" where
  "subtract_ground_row row =
     (case row of [] \<Rightarrow> Inl IndexError | e0 # _ \<Rightarrow> Inr (map (\<lambda>e. e - e0) row))"

fun subtract_ground_loop :: "real list list \<Rightarrow> error + real list list" where
  "subtract_ground_loop [] = Inr []"
| "subtract_ground_loop (row # rows) =
     (case subtract_ground_row row of
        Inl e \<Rightarrow> Inl e
      | Inr row' \<Rightarrow>
          (case subtract_ground_loop rows of
             Inl e \<Rightarrow> Inl e
           | Inr rows' \<Rightarrow> Inr (row' # rows')))"

text \<open>
  The part of \<^verbatim>\<open>get_spectrum_vs_paramvals\<close> after the map: the optional ground-state
  subtraction, the assignment of the previous value, and the container.
\<close>

definition finish_sweep ::
  "qenv \<Rightarrow> string \<Rightarrow> real list \<Rightarrow> bool \<Rightarrow> real \<Rightarrow> real list list \<Rightarrow> cmatrix list option
     \<Rightarrow> attrs \<Rightarrow> (error + spectrumdata) \<times> attrs" where
  "finish_sweep env pname pvals subtract_ground previous_paramval eigenvalue_table
       eigenstate_table s =
     (case (if subtract_ground then subtract_ground_loop eigenvalue_table
            else Inr eigenvalue_table) of
        Inl e \<Rightarrow> (Inl e, s)
      | Inr table \<Rightarrow>
          (let s' = setattr s pname previous_paramval
           in case get_initdata env s' of
                Inl e \<Rightarrow> (Inl e, s')
              | Inr params \<Rightarrow>
                  (Inr \<lparr>energy_table = table, system_params = params, param_name = pname,
                        param_vals = pvals, state_table = eigenstate_table,
                        matrixelem_table = None\<rparr>, s')))"

definition get_spectrum_vs_paramvals ::
  "qenv \<Rightarrow> string \<Rightarrow> real list \<Rightarrow> int \<Rightarrow> bool \<Rightarrow> bool \<Rightarrow> int option \<Rightarrow> attrs
     \<Rightarrow> (error + spectrumdata) \<times> attrs" where
  "get_spectrum_vs_paramvals env pname pvals evals_count subtract_ground get_eigenstates
       num_cpus s =
     (let ncpus = num_cpus_or env num_cpus
      in case getattr s pname of
           Inl e \<Rightarrow> (Inl e, s)
         | Inr previous_paramval \<Rightarrow>
             (if \<not> get_eigenstates then
                (case get_map_method ncpus (evals_for_paramval env pname evals_count) pvals s of
                   (Inl e, s') \<Rightarrow> (Inl e, s')
                 | (Inr eigenvalue_table, s') \<Rightarrow>
                     finish_sweep env pname pvals subtract_ground previous_paramval
                       eigenvalue_table None s')
              else
                (case get_map_method ncpus (esys_for_paramval env pname evals_count) pvals s of
                   (Inl e, s') \<Rightarrow> (Inl e, s')
                 | (Inr eigensystem_mapdata, s') \<Rightarrow>
                     (case recast_esys_mapdata eigensystem_mapdata of
                        (eigenvalue_table, eigenstate_table) \<Rightarrow>
                          finish_sweep env pname pvals subtract_ground previous_paramval
                            eigenvalue_table (Some eigenstate_table) s'))))"

subsection \<open>Dispersion\<close>

text \<open>
  The two argument forms that \<^verbatim>\<open>get_dispersion_vs_paramvals\<close> accepts: \<^verbatim>\<open>transitions\<close>
  is one pair of levels or a sequence of pairs, \<^verbatim>\<open>levels\<close> is \<^verbatim>\<open>None\<close>, one level or a
  sequence of levels. Level indices are Python integers.
\<close>

datatype transitions_arg = TPair int int | TSeq "(int \<times> int) list"

datatype levels_arg = LNone | LInt int | LSeq "int list"

datatype labels_val = LevelLabels "int list" | TransitionLabels transitions_arg

record dispersiondata =
  disp_energy_table :: "real list list list"
  disp_system_params :: "(string \<times> real) list"
  disp_param_name :: string
  disp_param_vals :: "real list"
  disp_labels :: labels_val
  dispersion :: "real list list"

text \<open>
  \<^verbatim>\<open>np.linspace(start, stop, num)\<close>: \<^verbatim>\<open>ValueError\<close> for a negative count, the start
  alone for one sample, evenly spaced samples with both ends otherwise.
\<close>

definition np_linspace :: "real \<Rightarrow> real \<Rightarrow> int \<Rightarrow> error + real list" where
  "np_linspace start stop num =
     (if num < 0 then Inl ValueError
      else if num = 1 then Inr [start]
      else Inr (map (\<lambda>k. start + real k * ((stop - start) / real (nat num - 1)))
                  [0..<nat num]))"

text \<open>\<^verbatim>\<open>np.max\<close> of a sequence of integers: \<^verbatim>\<open>ValueError\<close> on an empty one.\<close>

definition np_max_list :: "int list \<Rightarrow> error + int" where
  "np_max_list xs = (case xs of [] \<Rightarrow> Inl ValueError | y # ys \<Rightarrow> Inr (fold max ys y))"

definition np_max_transitions :: "transitions_arg \<Rightarrow> error + int" where
  "np_max_transitions transitions =
     (case transitions of
        TPair i j \<Rightarrow> Inr (max i j)
      | TSeq ts \<Rightarrow> np_max_list (concat (map (\<lambda>(i, j). [i, j]) ts)))"

definition np_max_levels :: "levels_arg \<Rightarrow> error + int" where
  "np_max_levels levels =
     (case levels of
        LNone \<Rightarrow> Inl TypeError
      | LInt n \<Rightarrow> Inr n
      | LSeq ls \<Rightarrow> np_max_list ls)"

text \<open>Python's truth value of \<^verbatim>\<open>levels\<close>: \<^verbatim>\<open>None\<close>, \<open>0\<close> and \<open>()\<close> are falsy.\<close>

definition levels_falsy :: "levels_arg \<Rightarrow> bool" where
  "levels_falsy levels =
     (case levels of LNone \<Rightarrow> True | LInt n \<Rightarrow> n = 0 | LSeq ls \<Rightarrow> ls = [])"

text \<open>Indexing with a Python integer: a negative index counts from the end.\<close>

definition py_index :: "'a list \<Rightarrow> int \<Rightarrow> error + 'a" where
  "py_index xs i =
     (if 0 \<le> i \<and> i < int (length xs) then Inr (xs ! nat i)
      else if i < 0 \<and> - int (length xs) \<le> i then Inr (xs ! nat (int (length xs) + i))
      else Inl IndexError)"

text \<open>
  Modelled from the spec: \<^verbatim>\<open>ParameterSweep\<close> (with \<^verbatim>\<open>HilbertSpace\<close>) of the package,
  which is not part of the source at hand. The specification: a 2-D grid of the induced
  samples and the swept values; for every grid cell both attributes are set (through
  \<^verbatim>\<open>update_func\<close>) and the lowest \<open>evals_count\<close> eigenvalues are solved for, without
  eigenvectors; the result is the energy cube indexed
  \<open>[induced_sample][swept_index][level]\<close>. The cells are visited in the order of the
  cube's indices, with the map primitive of the sweep.
\<close>

definition ParameterSweep ::
  "qenv \<Rightarrow> (real \<Rightarrow> real \<Rightarrow> attrs \<Rightarrow> attrs) \<Rightarrow> real list \<Rightarrow> real list \<Rightarrow> int \<Rightarrow> int option
     \<Rightarrow> attrs \<Rightarrow> (error + real list list list) \<times> attrs" where
  "ParameterSweep env update_func disp_vals sweep_vals evals_count num_cpus s =
     (let ncpus = num_cpus_or env num_cpus
      in get_map_method ncpus
           (\<lambda>disp_val.
              get_map_method ncpus
                (\<lambda>sweep_val t. eigenvals env evals_count (update_func disp_val sweep_val t))
                sweep_vals)
           disp_vals s)"

definition update_func :: "string \<Rightarrow> string \<Rightarrow> real \<Rightarrow> real \<Rightarrow> attrs \<Rightarrow> attrs" where
  "update_func dispersion_name pname disp_val sweep_val s =
     setattr (setattr s dispersion_name disp_val) pname sweep_val"

text \<open>
  \<^verbatim>\<open>eigenenergies[:, :, i]\<close>: the table \<open>[induced_sample][swept_index]\<close> of level \<open>i\<close>.
\<close>

definition take_level :: "real list list list \<Rightarrow> int \<Rightarrow> error + real list list" where
  "take_level eigenenergies i =
     collect (map (\<lambda>plane. collect (map (\<lambda>row. py_index row i) plane)) eigenenergies)"

text \<open>
  \<^verbatim>\<open>np.max(a, axis=0)\<close> and \<^verbatim>\<open>np.min(a, axis=0)\<close> of a table with \<open>ncols\<close> columns:
  one value per column; \<^verbatim>\<open>ValueError\<close> when there is a column and no row.
\<close>

definition column :: "real list list \<Rightarrow> nat \<Rightarrow> real list" where
  "column a k = map (\<lambda>row. row ! k) a"

definition np_max_axis0 :: "nat \<Rightarrow> real list list \<Rightarrow> error + real list" where
  "np_max_axis0 ncols a =
     (if ncols = 0 then Inr []
      else if a = [] then Inl ValueError
      else Inr (map (\<lambda>k. Max (set (column a k))) [0..<ncols]))"

definition np_min_axis0 :: "nat \<Rightarrow> real list list \<Rightarrow> error + real list" where
  "np_min_axis0 ncols a =
     (if ncols = 0 then Inr []
      else if a = [] then Inl ValueError
      else Inr (map (\<lambda>k. Min (set (column a k))) [0..<ncols]))"

definition max_minus_min :: "nat \<Rightarrow> real list list \<Rightarrow> error + real list" where
  "max_minus_min ncols a =
     (case np_max_axis0 ncols a of
        Inl e \<Rightarrow> Inl e
      | Inr mx \<Rightarrow> (case np_min_axis0 ncols a of
                     Inl e \<Rightarrow> Inl e
                   | Inr mn \<Rightarrow> Inr (map2 (-) mx mn)))"

text \<open>The body of the loop over the transitions, and the loop.\<close>

definition transition_dispersion ::
  "real list list list \<Rightarrow> nat \<Rightarrow> int \<times> int \<Rightarrow> error + real list" where
  "transition_dispersion eigenenergies ncols tr =
     (case tr of (i, j) \<Rightarrow>
        (case take_level eigenenergies i of
           Inl e \<Rightarrow> Inl e
         | Inr energy_i \<Rightarrow>
             (case take_level eigenenergies j of
                Inl e \<Rightarrow> Inl e
              | Inr energy_j \<Rightarrow>
                  max_minus_min ncols (map2 (map2 (-)) energy_i energy_j))))"

definition level_dispersion :: "real list list list \<Rightarrow> nat \<Rightarrow> int \<Rightarrow> error + real list" where
  "level_dispersion eigenenergies ncols j =
     (case take_level eigenenergies j of
        Inl e \<Rightarrow> Inl e
      | Inr energy_j \<Rightarrow> max_minus_min ncols energy_j)"

text \<open>
  Lines 471 to 482: the branch is chosen by \<^verbatim>\<open>levels is None\<close>. Unpacking the entries
  of a single pair and taking the length of a bare integer raise \<^verbatim>\<open>TypeError\<close>.
\<close>

definition dispersions_of ::
  "real list list list \<Rightarrow> nat \<Rightarrow> transitions_arg \<Rightarrow> levels_arg \<Rightarrow> error + real list list" where
  "dispersions_of eigenenergies ncols transitions levels =
     (case levels of
        LNone \<Rightarrow>
          (case transitions of
             TPair i j \<Rightarrow> Inl TypeError
           | TSeq ts \<Rightarrow> collect (map (transition_dispersion eigenenergies ncols) ts))
      | LInt n \<Rightarrow> Inl TypeError
      | LSeq ls \<Rightarrow> collect (map (level_dispersion eigenenergies ncols) ls))"

text \<open>
  \<^verbatim>\<open>_compute_dispersion\<close>. The dictionary \<^verbatim>\<open>paramvals_by_name\<close> has one entry when the
  two names are equal; no 2-D grid exists then, and the two-argument \<^verbatim>\<open>update_func\<close>
  cannot be called with one value.
\<close>

definition compute_dispersion ::
  "qenv \<Rightarrow> string \<Rightarrow> string \<Rightarrow> real list \<Rightarrow> transitions_arg \<Rightarrow> levels_arg \<Rightarrow> int \<Rightarrow> int option
     \<Rightarrow> attrs \<Rightarrow> (error + real list list list \<times> real list list) \<times> attrs" where
  "compute_dispersion env dispersion_name pname pvals transitions levels point_count
       num_cpus s =
     (case np_linspace 0 1 point_count of
        Inl e \<Rightarrow> (Inl e, s)
      | Inr disp_vals \<Rightarrow>
     (case getattr s dispersion_name of
        Inl e \<Rightarrow> (Inl e, s)
      | Inr previous_dispval \<Rightarrow>
     (case getattr s pname of
        Inl e \<Rightarrow> (Inl e, s)
      | Inr previous_paramval \<Rightarrow>
     (case (if levels_falsy levels then np_max_transitions transitions
            else np_max_levels levels) of
        Inl e \<Rightarrow> (Inl e, s)
      | Inr max_level \<Rightarrow>
     (if dispersion_name = pname then (Inl TypeError, s)
      else
     (case ParameterSweep env (update_func dispersion_name pname) disp_vals pvals
             (max_level + 1) num_cpus s of
        (Inl e, s') \<Rightarrow> (Inl e, s')
      | (Inr eigenenergies, s') \<Rightarrow>
     (case dispersions_of eigenenergies (length pvals) transitions levels of
        Inl e \<Rightarrow> (Inl e, s')
      | Inr dispersions \<Rightarrow>
          (Inr (eigenenergies, dispersions),
           setattr (setattr s' pname previous_paramval) dispersion_name
             previous_dispval))))))))"

text \<open>
  The first four lines of \<^verbatim>\<open>get_dispersion_vs_paramvals\<close>: \<^verbatim>\<open>transitions[0]\<close> is
  read only when \<^verbatim>\<open>levels\<close> is not an integer, and raises on an empty sequence.
\<close>

definition normalize_args ::
  "transitions_arg \<Rightarrow> levels_arg \<Rightarrow> error + transitions_arg \<times> levels_arg" where
  "normalize_args transitions levels =
     (case levels of
        LInt n \<Rightarrow> Inr (transitions, LSeq [n])
      | _ \<Rightarrow>
          (case transitions of
             TPair i j \<Rightarrow> Inr (TSeq [(i, j)], levels)
           | TSeq [] \<Rightarrow> Inl IndexError
           | TSeq (t # ts) \<Rightarrow> Inr (transitions, levels)))"

text \<open>\<^verbatim>\<open>levels or transitions\<close>.\<close>

definition labels_of :: "transitions_arg \<Rightarrow> levels_arg \<Rightarrow> labels_val" where
  "labels_of transitions levels =
     (case levels of
        LSeq (l # ls) \<Rightarrow> LevelLabels (l # ls)
      | LInt n \<Rightarrow> (if n = 0 then TransitionLabels transitions else LevelLabels [n])
      | _ \<Rightarrow> TransitionLabels transitions)"

text \<open>\<^verbatim>\<open>dispersion.T\<close> of a table with \<open>ncols\<close> columns.\<close>

definition np_transpose :: "nat \<Rightarrow> real list list \<Rightarrow> real list list" where
  "np_transpose ncols a = map (column a) [0..<ncols]"

text \<open>
  \<^verbatim>\<open>param_name += "/" + ref_param\<close> rebinds a local name;
  \<^verbatim>\<open>param_vals /= getattr(self, ref_param)\<close> divides the caller's array in place, element
  by element. (A divisor of zero gives infinities and NaN in floating point, which the
  real numbers of the model do not have: the model is meaningful for a nonzero
  divisor only.)
\<close>

definition apply_ref_param ::
  "attrs \<Rightarrow> string option \<Rightarrow> string \<Rightarrow> real list \<Rightarrow> error + string \<times> real list" where
  "apply_ref_param s ref_param pname pvals =
     (case ref_param of
        None \<Rightarrow> Inr (pname, pvals)
      | Some rp \<Rightarrow>
          (case getattr s rp of
             Inl e \<Rightarrow> Inl e
           | Inr r \<Rightarrow> Inr (pname @ ''/'' @ rp, map (\<lambda>v. v / r) pvals)))"

text \<open>
  \<^verbatim>\<open>get_dispersion_vs_paramvals\<close>. The third component of the result is the content of
  the caller's \<^verbatim>\<open>param_vals\<close> array when the call ends; the container holds the same
  array.
\<close>

definition get_dispersion_vs_paramvals ::
  "qenv \<Rightarrow> string \<Rightarrow> string \<Rightarrow> real list \<Rightarrow> string option \<Rightarrow> transitions_arg \<Rightarrow> levels_arg
     \<Rightarrow> int \<Rightarrow> int option \<Rightarrow> attrs \<Rightarrow> (error + dispersiondata) \<times> attrs \<times> real list" where
  "get_dispersion_vs_paramvals env dispersion_name pname pvals ref_param transitions levels
       point_count num_cpus s =
     (case normalize_args transitions levels of
        Inl e \<Rightarrow> (Inl e, s, pvals)
      | Inr (transitions', levels') \<Rightarrow>
     (case compute_dispersion env dispersion_name pname pvals transitions' levels'
             point_count num_cpus s of
        (Inl e, s') \<Rightarrow> (Inl e, s', pvals)
      | (Inr (eigenenergies, disp), s') \<Rightarrow>
     (case apply_ref_param s' ref_param pname pvals of
        Inl e \<Rightarrow> (Inl e, s', pvals)
      | Inr (pname', pvals') \<Rightarrow>
     (case get_initdata env s' of
        Inl e \<Rightarrow> (Inl e, s', pvals')
      | Inr params \<Rightarrow>
          (Inr \<lparr>disp_energy_table = eigenenergies, disp_system_params = params,
                disp_param_name = pname', disp_param_vals = pvals',
                disp_labels = labels_of transitions' levels',
                dispersion = np_transpose (length pvals) disp\<rparr>, s', pvals')))))"

subsection \<open>Matrix elements\<close>

text \<open>
  Modelled from the spec: \<^verbatim>\<open>get_matrixelement_table\<close> of
  \<^verbatim>\<open>scqubits.utils.spectrum_utils\<close>, which is not part of the source at hand. The
  specification: the matrix of the values \<open>\<langle>i|Operator|j\<rangle>\<close>, with the eigenvectors
  the columns of \<open>evecs\<close>. Matrices that do not fit each other are a \<^verbatim>\<open>ValueError\<close>, as
  for a matrix product.
\<close>

definition ncols_of :: "'a list list \<Rightarrow> nat" where
  "ncols_of M = (case M of [] \<Rightarrow> 0 | row # _ \<Rightarrow> length row)"

definition matrix_element :: "cmatrix \<Rightarrow> cmatrix \<Rightarrow> nat \<Rightarrow> nat \<Rightarrow> complex" where
  "matrix_element operator_matrix evecs i j =
     (\<Sum>a\<leftarrow>[0..<length evecs]. \<Sum>b\<leftarrow>[0..<length evecs].
        cnj (evecs ! a ! i) * (operator_matrix ! a ! b) * (evecs ! b ! j))"

definition get_matrixelement_table :: "cmatrix \<Rightarrow> cmatrix \<Rightarrow> error + cmatrix" where
  "get_matrixelement_table operator_matrix evecs =
     (let m = ncols_of evecs
      in if \<not> (list_all (\<lambda>row. length row = m) evecs
                \<and> length operator_matrix = length evecs \<and> is_square operator_matrix)
         then Inl ValueError
         else Inr (map (\<lambda>i. map (\<lambda>j. matrix_element operator_matrix evecs i j) [0..<m])
                     [0..<m]))"

text \<open>
  \<^verbatim>\<open>getattr(self, operator)()\<close>: a name that is an instance attribute gives a number,
  which cannot be called; a name that is nowhere raises \<^verbatim>\<open>AttributeError\<close>. (Members
  of the class other than its operator methods are not modelled.)
\<close>

definition call_operator :: "qenv \<Rightarrow> attrs \<Rightarrow> string \<Rightarrow> error + cmatrix" where
  "call_operator env s operator =
     (case s operator of
        Some v \<Rightarrow> Inl TypeError
      | None \<Rightarrow> (case operators env operator of
                   None \<Rightarrow> Inl AttributeError
                 | Some f \<Rightarrow> Inr (f s)))"

text \<open>
  \<^verbatim>\<open>matrixelement_table\<close>, as called with \<^verbatim>\<open>filename=None\<close> and
  \<^verbatim>\<open>return_datastore=False\<close>. The eigenvectors are computed, when they are not given,
  before the operator is looked up.
\<close>

definition matrixelement_table ::
  "qenv \<Rightarrow> string \<Rightarrow> cmatrix option \<Rightarrow> int \<Rightarrow> attrs \<Rightarrow> (error + cmatrix) \<times> attrs" where
  "matrixelement_table env operator evecs evals_count s =
     (case (case evecs of
              None \<Rightarrow> (case eigensys env evals_count s of
                         (Inl e, s') \<Rightarrow> (Inl e, s')
                       | (Inr (_, v), s') \<Rightarrow> (Inr v, s'))
            | Some v \<Rightarrow> (Inr v, s)) of
        (Inl e, s') \<Rightarrow> (Inl e, s')
      | (Inr evecs', s') \<Rightarrow>
          (case call_operator env s' operator of
             Inl e \<Rightarrow> (Inl e, s')
           | Inr operator_matrix \<Rightarrow> (get_matrixelement_table operator_matrix evecs', s')))"

text \<open>
  \<^verbatim>\<open>matelem_table[index] = table\<close>, into a slot of shape \<open>(n, n)\<close>: numpy broadcasts
  an axis of length 1 and refuses any other shape that differs.
\<close>

definition np_setitem :: "nat \<Rightarrow> cmatrix \<Rightarrow> error + cmatrix" where
  "np_setitem n table =
     (let r = length table; c = ncols_of table
      in if (r = n \<or> r = 1) \<and> (c = n \<or> c = 1)
         then Inr (map (\<lambda>i. map (\<lambda>j. table ! (if r = 1 then 0 else i) ! (if c = 1 then 0 else j))
                                [0..<n]) [0..<n])
         else Inl ValueError)"

definition matelem_step ::
  "qenv \<Rightarrow> string \<Rightarrow> int \<Rightarrow> cmatrix \<Rightarrow> attrs \<Rightarrow> (error + cmatrix) \<times> attrs" where
  "matelem_step env operator evals_count evecs s =
     (case matrixelement_table env operator (Some evecs) evals_count s of
        (Inl e, s') \<Rightarrow> (Inl e, s')
      | (Inr table, s') \<Rightarrow> (np_setitem (nat evals_count) table, s'))"

text \<open>
  \<^verbatim>\<open>get_matelements_vs_paramvals\<close>: the eigenvector sweep, \<^verbatim>\<open>np.empty\<close> (which refuses
  a negative dimension), the loop over the parameter points, and the table attached to
  the container of the sweep.
\<close>

definition get_matelements_vs_paramvals ::
  "qenv \<Rightarrow> string \<Rightarrow> string \<Rightarrow> real list \<Rightarrow> int \<Rightarrow> int option \<Rightarrow> attrs
     \<Rightarrow> (error + spectrumdata) \<times> attrs" where
  "get_matelements_vs_paramvals env operator pname pvals evals_count num_cpus s =
     (let ncpus = num_cpus_or env num_cpus
      in case get_spectrum_vs_paramvals env pname pvals evals_count False True (Some ncpus) s of
           (Inl e, s') \<Rightarrow> (Inl e, s')
         | (Inr spectrumdata, s') \<Rightarrow>
             (if evals_count < 0 then (Inl ValueError, s')
              else
                (case state_table spectrumdata of
                   None \<Rightarrow> (if pvals = [] then (Inr (spectrumdata\<lparr>matrixelem_table := Some []\<rparr>), s')
                            else (Inl TypeError, s'))
                 | Some states \<Rightarrow>
                     (case map_seq (matelem_step env operator evals_count)
                             (take (length pvals) states) s' of
                        (Inl e, s'') \<Rightarrow> (Inl e, s'')
                      | (Inr matelem_table, s'') \<Rightarrow>
                          (Inr (spectrumdata\<lparr>matrixelem_table := Some matelem_table\<rparr>), s'')))))"

subsection \<open>A two-level system\<close>

text \<open>
  A concrete system for evaluating the definitions: the diagonal Hamiltonian
  \<open>diag(x, 1 + ng)\<close> with the parameters \<open>x\<close> and \<open>ng\<close>, two operator methods, and
  the exact decomposition of a diagonal matrix in place of the numerical kernel (the
  sorted diagonal, and the unit vectors in that order as columns).
\<close>

definition attr_or_zero :: "attrs \<Rightarrow> string \<Rightarrow> real" where
  "attr_or_zero s name = (case s name of None \<Rightarrow> 0 | Some v \<Rightarrow> v)"

definition toy_hamiltonian :: "attrs \<Rightarrow> cmatrix" where
  "toy_hamiltonian s =
     [[complex_of_real (attr_or_zero s ''x''), 0],
      [0, complex_of_real (1 + attr_or_zero s ''ng'')]]"

definition is_diagonal :: "cmatrix \<Rightarrow> bool" where
  "is_diagonal M =
     list_all (\<lambda>a. list_all (\<lambda>b. a = b \<or> M ! a ! b = 0) [0..<length M]) [0..<length M]"

definition diag_lapack :: "cmatrix \<Rightarrow> (real list \<times> cmatrix) option" where
  "diag_lapack M =
     (if \<not> (is_square M \<and> is_diagonal M) then None
      else (let d = map (\<lambda>k. Re (M ! k ! k)) [0..<length M]; idx = argsort d
            in Some (map (\<lambda>k. d ! k) idx,
                     map (\<lambda>a. map (\<lambda>k. if k = a then 1 else 0) idx) [0..<length M])))"

definition sz_matrix :: cmatrix where
  "sz_matrix = [[1, 0], [0, - 1]]"

definition sy_matrix :: cmatrix where
  "sy_matrix = [[0, - \<i>], [\<i>, 0]]"

definition toy_env :: qenv where
  "toy_env =
     \<lparr>hamiltonian = toy_hamiltonian, hilbertdim = (\<lambda>s. 2),
      operators = [''sz_operator'' \<mapsto> (\<lambda>s. sz_matrix), ''sy_operator'' \<mapsto> (\<lambda>s. sy_matrix)],
      init_params = [''x'', ''ng''], lapack = diag_lapack, NUM_CPUS = 1\<rparr>"

definition toy_attrs :: attrs where
  "toy_attrs = [''x'' \<mapsto> 5, ''ng'' \<mapsto> 0]"

subsection \<open>Attributes that a call may change\<close>

definition agree_off :: "string set \<Rightarrow> attrs \<Rightarrow> attrs \<Rightarrow> bool" where
  "agree_off K t s \<longleftrightarrow> (\<forall>k. k \<notin> K \<longrightarrow> t k = s k)"

subsection \<open>The sweep as a function of the attributes before the call\<close>

text \<open>
  The eigenvalues that one point of the sweep computes: what \<^verbatim>\<open>_evals_for_paramval\<close>
  (or, with eigenvectors, \<^verbatim>\<open>_esys_for_paramval\<close>) returns for the value \<open>v\<close> on the
  system as it is before the sweep.
\<close>

definition point_energies ::
  "qenv \<Rightarrow> string \<Rightarrow> int \<Rightarrow> bool \<Rightarrow> attrs \<Rightarrow> real \<Rightarrow> error + real list" where
  "point_energies env p n ge s v =
     (if ge then (case fst (esys_for_paramval env p n v s) of
                    Inl e \<Rightarrow> Inl e
                  | Inr (evals, evecs) \<Rightarrow> Inr evals)
      else fst (evals_for_paramval env p n v s))"


text \<open>
  What the sweep returns, written without the map primitive and without the attribute
  being threaded through: the table of the single-point solves, then the rest of
  \<^verbatim>\<open>get_spectrum_vs_paramvals\<close>. Lemma \<open>sweep_fst\<close> below proves that the sweep
  returns exactly this.
\<close>

definition sweep_tables ::
  "qenv \<Rightarrow> string \<Rightarrow> real list \<Rightarrow> int \<Rightarrow> bool \<Rightarrow> attrs
     \<Rightarrow> error + real list list \<times> cmatrix list option" where
  "sweep_tables env p xs n ge s =
     (if \<not> ge then
        (case collect (map (\<lambda>v. evals_calc env (setattr s p v) n) xs) of
           Inl e \<Rightarrow> Inl e
         | Inr tbl \<Rightarrow> Inr (tbl, None))
      else
        (case collect (map (\<lambda>v. esys_calc env (setattr s p v) n) xs) of
           Inl e \<Rightarrow> Inl e
         | Inr esys \<Rightarrow> Inr (map fst esys, Some (map snd esys))))"

definition sweep_value ::
  "qenv \<Rightarrow> string \<Rightarrow> real list \<Rightarrow> int \<Rightarrow> bool \<Rightarrow> bool \<Rightarrow> attrs \<Rightarrow> error + spectrumdata" where
  "sweep_value env p xs n sg ge s =
     (case getattr s p of
        Inl e \<Rightarrow> Inl e
      | Inr prev \<Rightarrow>
     (case sweep_tables env p xs n ge s of
        Inl e \<Rightarrow> Inl e
      | Inr (raw, states) \<Rightarrow>
     (case (if sg then subtract_ground_loop raw else Inr raw) of
        Inl e \<Rightarrow> Inl e
      | Inr table \<Rightarrow>
     (case get_initdata env s of
        Inl e \<Rightarrow> Inl e
      | Inr params \<Rightarrow>
          Inr \<lparr>energy_table = table, system_params = params, param_name = p,
               param_vals = xs, state_table = states, matrixelem_table = None\<rparr>))))"

subsection \<open>The spread of an energy over the induced samples\<close>

text \<open>
  Level \<open>i\<close> of a row of eigenvalues, with Python's reading of a negative index, and
  the spread of a quantity over the samples: its maximum minus its minimum.
\<close>

definition level_of :: "real list \<Rightarrow> int \<Rightarrow> real" where
  "level_of row i = (if i < 0 then row ! nat (int (length row) + i) else row ! nat i)"

definition spread :: "('a \<Rightarrow> real) \<Rightarrow> 'a list \<Rightarrow> real" where
  "spread f samples = Max (f ` set samples) - Min (f ` set samples)"

subsection \<open>Conditions on an operator and on the numerical kernel\<close>

text \<open>
  A Hermitian operator matrix, and the shape that \<^verbatim>\<open>scipy.linalg.eigh\<close> guarantees for
  a full decomposition: as many eigenvalues, and as many rows of eigenvector components,
  as the matrix has rows.
\<close>

definition is_hermitian :: "cmatrix \<Rightarrow> bool" where
  "is_hermitian A =
     list_all (\<lambda>a. list_all (\<lambda>b. A ! b ! a = cnj (A ! a ! b)) [0..<length A]) [0..<length A]"

definition lapack_wf :: "qenv \<Rightarrow> bool" where
  "lapack_wf env \<longleftrightarrow>
     (\<forall>M w v. lapack env M = Some (w, v) \<longrightarrow> length w = length M \<and> length v = length M)"

section \<open>Properties\<close>

lemma agree_off_refl: "agree_off K s s"
  by (simp add: agree_off_def)

lemma agree_off_trans: "agree_off K t s \<Longrightarrow> agree_off K u t \<Longrightarrow> agree_off K u s"
  by (simp add: agree_off_def)

lemma agree_off_setattr: "p \<in> K \<Longrightarrow> agree_off K t s \<Longrightarrow> agree_off K (setattr t p v) s"
  by (simp add: agree_off_def setattr_def)

lemma setattr_agree: "agree_off {p} t s \<Longrightarrow> setattr t p v = setattr s p v"
  by (rule ext) (simp add: agree_off_def setattr_def)

lemma setattr_restore: "agree_off {p} t s \<Longrightarrow> s p = Some v \<Longrightarrow> setattr t p v = s"
  by (rule ext) (simp add: agree_off_def setattr_def)

lemma map_seq_frame:
  assumes "\<And>x t. agree_off K (snd (f x t)) t"
  shows "agree_off K (snd (map_seq f xs s)) s"
proof (induction xs arbitrary: s)
  case Nil
  show ?case by (simp add: agree_off_refl)
next
  case (Cons x xs)
  obtain r s1 where fx: "f x s = (r, s1)" by (cases "f x s")
  have a1: "agree_off K s1 s" using assms[of x s] fx by simp
  show ?case
  proof (cases r)
    case (Inl e)
    then show ?thesis using fx a1 by simp
  next
    case (Inr y)
    obtain r2 s2 where m: "map_seq f xs s1 = (r2, s2)" by (cases "map_seq f xs s1")
    have "agree_off K s2 s1" using Cons.IH[of s1] m by simp
    then have "agree_off K s2 s" using a1 agree_off_trans by blast
    then show ?thesis using fx Inr m by (cases r2) simp_all
  qed
qed

lemma map_seq_collect:
  assumes fr: "\<And>x t. agree_off K (snd (f x t)) t"
    and res: "\<And>x t. agree_off K t s \<Longrightarrow> fst (f x t) = g x"
    and t: "agree_off K t s"
  shows "fst (map_seq f xs t) = collect (map g xs)"
  using t
proof (induction xs arbitrary: t)
  case Nil
  show ?case by simp
next
  case (Cons x xs)
  obtain r s1 where fx: "f x t = (r, s1)" by (cases "f x t")
  have r: "r = g x" using res[OF Cons.prems, of x] fx by simp
  have "agree_off K s1 t" using fr[of x t] fx by simp
  then have a1: "agree_off K s1 s" using Cons.prems agree_off_trans by blast
  show ?case
  proof (cases r)
    case (Inl e)
    then show ?thesis using fx r by simp
  next
    case (Inr y)
    obtain r2 s2 where m: "map_seq f xs s1 = (r2, s2)" by (cases "map_seq f xs s1")
    have "r2 = collect (map g xs)" using Cons.IH[OF a1] m by simp
    then show ?thesis using fx Inr m r by (simp split: sum.splits)
  qed
qed

lemma collect_Inr_iff:
  "collect rs = Inr ys \<longleftrightarrow> rs = map Inr ys"
proof (induction rs arbitrary: ys)
  case Nil
  show ?case by auto
next
  case (Cons r rs)
  show ?case
  proof (cases r)
    case (Inl e)
    then show ?thesis by auto
  next
    case (Inr y)
    show ?thesis
    proof (cases "collect rs")
      case (Inl e)
      then have "\<And>zs. rs \<noteq> map Inr zs" using Cons.IH by auto
      then show ?thesis using Inl Inr by (cases ys) auto
    next
      case (Inr zs)
      then have "rs = map Inr zs" using Cons.IH by simp
      then show ?thesis using Inr \<open>r = Inr y\<close> by (cases ys) auto
    qed
  qed
qed

lemma map_par_collect: "fst (map_par f xs s) = collect (map (\<lambda>x. fst (f x s)) xs)"
  by (simp add: map_par_def)

lemma map_par_state: "snd (map_par f xs s) = s"
  by (simp add: map_par_def)


lemma evals_for_paramval_frame:
  "agree_off {p} (snd (evals_for_paramval env p n v t)) t"
  by (simp add: evals_for_paramval_def eigenvals_def agree_off_setattr agree_off_refl)

lemma evals_for_paramval_result:
  "agree_off {p} t s \<Longrightarrow>
   fst (evals_for_paramval env p n v t) = evals_calc env (setattr s p v) n"
  by (simp add: evals_for_paramval_def eigenvals_def setattr_agree)

lemma esys_for_paramval_frame:
  "agree_off {p} (snd (esys_for_paramval env p n v t)) t"
  by (simp add: esys_for_paramval_def eigensys_def agree_off_setattr agree_off_refl)

lemma esys_for_paramval_result:
  "agree_off {p} t s \<Longrightarrow>
   fst (esys_for_paramval env p n v t) = esys_calc env (setattr s p v) n"
  by (simp add: esys_for_paramval_def eigensys_def setattr_agree)

lemma map_method_frame:
  assumes "\<And>x t. agree_off K (snd (f x t)) t"
  shows "agree_off K (snd (get_map_method c f xs s)) s"
  using map_seq_frame[of K f xs s, OF assms]
  by (simp add: get_map_method_def map_par_def agree_off_refl)

lemma map_method_collect:
  assumes fr: "\<And>x t. agree_off K (snd (f x t)) t"
    and res: "\<And>x t. agree_off K t s \<Longrightarrow> fst (f x t) = g x"
  shows "fst (get_map_method c f xs s) = collect (map g xs)"
proof (cases "c = 1")
  case True
  then show ?thesis
    using map_seq_collect[of K f s g s xs, OF fr res agree_off_refl]
    by (simp add: get_map_method_def)
next
  case False
  have "\<And>x. fst (f x s) = g x" using res[OF agree_off_refl] .
  then show ?thesis using False by (simp add: get_map_method_def map_par_def)
qed

lemma evals_map:
  "fst (get_map_method c (evals_for_paramval env p n) xs s)
     = collect (map (\<lambda>v. evals_calc env (setattr s p v) n) xs)"
  by (rule map_method_collect[where K = "{p}"])
     (simp_all add: evals_for_paramval_frame evals_for_paramval_result)

lemma esys_map:
  "fst (get_map_method c (esys_for_paramval env p n) xs s)
     = collect (map (\<lambda>v. esys_calc env (setattr s p v) n) xs)"
  by (rule map_method_collect[where K = "{p}"])
     (simp_all add: esys_for_paramval_frame esys_for_paramval_result)

lemma evals_map_frame:
  "agree_off {p} (snd (get_map_method c (evals_for_paramval env p n) xs s)) s"
  by (rule map_method_frame) (rule evals_for_paramval_frame)

lemma esys_map_frame:
  "agree_off {p} (snd (get_map_method c (esys_for_paramval env p n) xs s)) s"
  by (rule map_method_frame) (rule esys_for_paramval_frame)

lemma finish_sweep_fst:
  assumes "agree_off {p} t s" and "s p = Some prev"
  shows "fst (finish_sweep env p xs sg prev raw states t) =
     (case (if sg then subtract_ground_loop raw else Inr raw) of
        Inl e \<Rightarrow> Inl e
      | Inr table \<Rightarrow>
     (case get_initdata env s of
        Inl e \<Rightarrow> Inl e
      | Inr params \<Rightarrow>
          Inr \<lparr>energy_table = table, system_params = params, param_name = p,
               param_vals = xs, state_table = states, matrixelem_table = None\<rparr>))"
  using setattr_restore[OF assms]
  by (simp add: finish_sweep_def Let_def split: sum.splits)

lemma finish_sweep_snd:
  assumes "agree_off {p} t s" and "s p = Some prev"
    and "finish_sweep env p xs sg prev raw states t = (Inr sd, s')"
  shows "s' = s"
  using setattr_restore[OF assms(1,2)] assms(3)
  by (auto simp add: finish_sweep_def Let_def split: sum.splits)

lemma sweep_fst:
  "fst (get_spectrum_vs_paramvals env p xs n sg ge c s) = sweep_value env p xs n sg ge s"
proof (cases "s p")
  case None
  then show ?thesis
    by (simp add: get_spectrum_vs_paramvals_def sweep_value_def getattr_def)
next
  case (Some prev)
  show ?thesis
  proof (cases ge)
    case False
    let ?m = "get_map_method (num_cpus_or env c) (evals_for_paramval env p n) xs s"
    obtain r t where m: "?m = (r, t)" by (cases ?m)
    have r: "r = collect (map (\<lambda>v. evals_calc env (setattr s p v) n) xs)"
      using evals_map[of "num_cpus_or env c" env p n xs s] m by simp
    have t: "agree_off {p} t s"
      using evals_map_frame[of p "num_cpus_or env c" env n xs s] m by simp
    show ?thesis
      using False Some m r finish_sweep_fst[OF t Some]
      by (simp add: get_spectrum_vs_paramvals_def sweep_value_def sweep_tables_def
          getattr_def Let_def split: sum.splits)
  next
    case True
    let ?m = "get_map_method (num_cpus_or env c) (esys_for_paramval env p n) xs s"
    obtain r t where m: "?m = (r, t)" by (cases ?m)
    have r: "r = collect (map (\<lambda>v. esys_calc env (setattr s p v) n) xs)"
      using esys_map[of "num_cpus_or env c" env p n xs s] m by simp
    have t: "agree_off {p} t s"
      using esys_map_frame[of p "num_cpus_or env c" env n xs s] m by simp
    show ?thesis
      using True Some m r finish_sweep_fst[OF t Some]
      by (simp add: get_spectrum_vs_paramvals_def sweep_value_def sweep_tables_def
          getattr_def Let_def recast_esys_mapdata_def split: sum.splits)
  qed
qed

lemma sweep_snd:
  assumes "get_spectrum_vs_paramvals env p xs n sg ge c s = (Inr sd, s')"
  shows "s' = s"
proof (cases "s p")
  case None
  then show ?thesis using assms
    by (simp add: get_spectrum_vs_paramvals_def getattr_def)
next
  case (Some prev)
  show ?thesis
  proof (cases ge)
    case False
    let ?m = "get_map_method (num_cpus_or env c) (evals_for_paramval env p n) xs s"
    obtain r t where m: "?m = (r, t)" by (cases ?m)
    have t: "agree_off {p} t s"
      using evals_map_frame[of p "num_cpus_or env c" env n xs s] m by simp
    show ?thesis
      using False Some m assms finish_sweep_snd[OF t Some]
      by (auto simp add: get_spectrum_vs_paramvals_def getattr_def Let_def split: sum.splits)
  next
    case True
    let ?m = "get_map_method (num_cpus_or env c) (esys_for_paramval env p n) xs s"
    obtain r t where m: "?m = (r, t)" by (cases ?m)
    have t: "agree_off {p} t s"
      using esys_map_frame[of p "num_cpus_or env c" env n xs s] m by simp
    show ?thesis
      using True Some m assms finish_sweep_snd[OF t Some]
      by (auto simp add: get_spectrum_vs_paramvals_def getattr_def Let_def
          recast_esys_mapdata_def split: sum.splits)
  qed
qed

lemma upt_0_2: "[0..<2] = [0, Suc 0]"
  by (simp add: numeral_2_eq_2)

lemma toy_square: "is_square (toy_hamiltonian s)" "is_diagonal (toy_hamiltonian s)"
  "length (toy_hamiltonian s) = 2"
  by (simp_all add: is_square_def is_diagonal_def toy_hamiltonian_def upt_0_2)

lemma argsort2: "argsort [a, b] = (if a \<le> b then [0, Suc 0] else [Suc 0, 0])"
  by (simp add: argsort_def upt_0_2)

lemma toy_diag:
  "Re (toy_hamiltonian s ! 0 ! 0) = attr_or_zero s ''x''"
  "Re (toy_hamiltonian s ! Suc 0 ! Suc 0) = 1 + attr_or_zero s ''ng''"
  by (simp_all add: toy_hamiltonian_def)

lemma toy_lapack:
  "diag_lapack (toy_hamiltonian s) =
     (let a = attr_or_zero s ''x''; b = 1 + attr_or_zero s ''ng''
      in if a \<le> b then Some ([a, b], [[1, 0], [0, 1]]) else Some ([b, a], [[0, 1], [1, 0]]))"
  using toy_square[of s]
  by (simp add: diag_lapack_def Let_def toy_diag argsort2 upt_0_2)

lemma toy_evals_calc_2:
  "evals_calc toy_env s 2 = Inr (sort [attr_or_zero s ''x'', 1 + attr_or_zero s ''ng''])"
  using toy_square[of s]
  by (simp add: evals_calc_def eigh_def toy_env_def toy_lapack Let_def slice_def)

lemma toy_evals_calc_3:
  "evals_calc toy_env s 3 = Inl ValueError"
  using toy_square[of s]
  by (simp add: evals_calc_def eigh_def toy_env_def)

lemma toy_esys_calc_3:
  "esys_calc toy_env s 3 = Inl ValueError"
  using toy_square[of s]
  by (simp add: esys_calc_def eigh_def toy_env_def)

lemma toy_esys_calc_2:
  "esys_calc toy_env s 2 =
     (let a = attr_or_zero s ''x''; b = 1 + attr_or_zero s ''ng''
      in if a \<le> b then Inr ([a, b], [[1, 0], [0, 1]]) else Inr ([b, a], [[0, 1], [1, 0]]))"
  using toy_square[of s]
  by (simp add: esys_calc_def eigh_def toy_env_def toy_lapack Let_def slice_def
      order_eigensystem_def argsort2)

lemma toy_initdata:
  "s ''x'' = Some a \<Longrightarrow> s ''ng'' = Some b \<Longrightarrow>
   get_initdata toy_env s = Inr [(''x'', a), (''ng'', b)]"
  by (simp add: get_initdata_def toy_env_def getattr_def)

lemma toy_attrs_simps:
  "toy_attrs ''x'' = Some 5" "toy_attrs ''ng'' = Some 0"
  "attr_or_zero (setattr toy_attrs ''x'' v) ''x'' = v"
  "attr_or_zero (setattr toy_attrs ''x'' v) ''ng'' = 0"
  by (simp_all add: toy_attrs_def attr_or_zero_def setattr_def)

lemma ex1: "sweep_value toy_env ''x'' [2, 0] 2 False False toy_attrs
   = Inr \<lparr>energy_table = [[1, 2], [0, 1]], system_params = [(''x'', 5), (''ng'', 0)],
       param_name = ''x'', param_vals = [2, 0], state_table = None, matrixelem_table = None\<rparr>"
  by (simp add: sweep_value_def sweep_tables_def getattr_def toy_attrs_simps
      toy_evals_calc_2 toy_initdata)

lemma ex1b: "sweep_value toy_env ''x'' [2, 0] 2 True True toy_attrs
   = Inr \<lparr>energy_table = [[0, 1], [0, 1]], system_params = [(''x'', 5), (''ng'', 0)],
       param_name = ''x'', param_vals = [2, 0], state_table = Some [[[0, 1], [1, 0]], [[1, 0], [0, 1]]], matrixelem_table = None\<rparr>"
  by (simp add: sweep_value_def sweep_tables_def getattr_def toy_attrs_simps
      toy_esys_calc_2 toy_initdata subtract_ground_row_def)

lemma sorted_argsort: "sorted (map (\<lambda>k. evals ! k) (argsort evals))"
proof -
  let ?zs = "zip evals [0..<length evals]"
  have "\<And>z. z \<in> set (sort_key fst ?zs) \<Longrightarrow> evals ! snd z = fst z"
    by (auto simp: set_zip)
  then have "map (\<lambda>k. evals ! k) (argsort evals) = map fst (sort_key fst ?zs)"
    by (simp add: argsort_def comp_def)
  then show ?thesis by (simp add: sorted_sort_key)
qed

lemma length_argsort: "length (argsort evals) = length evals"
  by (simp add: argsort_def)

lemma evals_calc_sorted: "evals_calc env s n = Inr evals \<Longrightarrow> sorted evals"
  by (auto simp: evals_calc_def Let_def split: sum.splits prod.splits)

lemma esys_calc_sorted: "esys_calc env s n = Inr (evals, evecs) \<Longrightarrow> sorted evals"
  by (auto simp: esys_calc_def Let_def order_eigensystem_def sorted_argsort
      split: sum.splits prod.splits)

lemma sorted_shift: "sorted row \<Longrightarrow> sorted (map (\<lambda>e. e - (c::real)) row)"
  by (induction row) auto

lemma subtract_ground_row_sorted:
  "subtract_ground_row row = Inr row' \<Longrightarrow> sorted row \<Longrightarrow> sorted row'"
  using sorted_shift[of row]
  by (cases row) (auto simp: subtract_ground_row_def)

lemma subtract_ground_loop_rows:
  "subtract_ground_loop rows = Inr rows' \<Longrightarrow>
   list_all2 (\<lambda>row row'. subtract_ground_row row = Inr row') rows rows'"
proof (induction rows arbitrary: rows')
  case Nil
  then show ?case by simp
next
  case (Cons row rows)
  then show ?case by (auto split: sum.splits)
qed

lemma point_energies_sorted: "point_energies env p n ge s v = Inr evals \<Longrightarrow> sorted evals"
  by (auto simp: point_energies_def esys_for_paramval_def evals_for_paramval_def
      eigensys_def eigenvals_def evals_calc_sorted esys_calc_sorted
      split: if_splits sum.splits)

lemma sweep_tables_rows:
  assumes "sweep_tables env p xs n ge s = Inr (raw, states)"
  shows "list_all2 (\<lambda>v row. point_energies env p n ge s v = Inr row) xs raw"
proof (cases ge)
  case False
  then obtain tbl where c: "collect (map (\<lambda>v. evals_calc env (setattr s p v) n) xs) = Inr tbl"
    and r: "raw = tbl"
    using assms by (auto simp: sweep_tables_def split: sum.splits)
  from c have "map (\<lambda>v. evals_calc env (setattr s p v) n) xs = map Inr tbl"
    by (simp add: collect_Inr_iff)
  then have m: "map (\<lambda>v. evals_calc env (setattr s p v) n) xs = map Inr tbl" .
  then have len: "length xs = length tbl" by (metis length_map)
  have "\<And>i. i < length xs \<Longrightarrow> evals_calc env (setattr s p (xs ! i)) n = Inr (tbl ! i)"
    using m len by (metis nth_map)
  then show ?thesis using False r len
    by (simp add: point_energies_def evals_for_paramval_def eigenvals_def
        list_all2_conv_all_nth)
next
  case True
  then obtain esys where c: "collect (map (\<lambda>v. esys_calc env (setattr s p v) n) xs) = Inr esys"
    and r: "raw = map fst esys"
    using assms by (auto simp: sweep_tables_def split: sum.splits)
  from c have m: "map (\<lambda>v. esys_calc env (setattr s p v) n) xs = map Inr esys"
    by (simp add: collect_Inr_iff)
  then have len: "length xs = length esys" by (metis length_map)
  have "\<And>i. i < length xs \<Longrightarrow> esys_calc env (setattr s p (xs ! i)) n = Inr (esys ! i)"
    using m len by (metis nth_map)
  then show ?thesis using True r len
    by (simp add: point_energies_def esys_for_paramval_def eigensys_def
        list_all2_conv_all_nth split: prod.splits)
qed

lemma sweep_success:
  assumes "get_spectrum_vs_paramvals env p xs n sg ge c s = (Inr sd, s')"
  shows "\<exists>raw. list_all2 (\<lambda>v row. point_energies env p n ge s v = Inr row) xs raw
            \<and> (if sg then subtract_ground_loop raw else Inr raw) = Inr (energy_table sd)"
proof -
  have "sweep_value env p xs n sg ge s = Inr sd"
    using sweep_fst[of env p xs n sg ge c s] assms by simp
  then obtain raw states where t: "sweep_tables env p xs n ge s = Inr (raw, states)"
    and e: "(if sg then subtract_ground_loop raw else Inr raw) = Inr (energy_table sd)"
    by (auto simp: sweep_value_def split: sum.splits)
  show ?thesis using sweep_tables_rows[OF t] e by blast
qed


lemma toy_sweep_ground:
  "get_spectrum_vs_paramvals toy_env ''x'' [2, 0] 2 True True c toy_attrs
   = (Inr \<lparr>energy_table = [[0, 1], [0, 1]], system_params = [(''x'', 5), (''ng'', 0)],
       param_name = ''x'', param_vals = [2, 0],
       state_table = Some [[[0, 1], [1, 0]], [[1, 0], [0, 1]]], matrixelem_table = None\<rparr>,
      toy_attrs)"
  (is "?call = (Inr ?sd, _)")
proof -
  have f: "fst ?call = Inr ?sd" by (simp add: sweep_fst ex1b)
  then have "?call = (Inr ?sd, snd ?call)" by (metis prod.collapse)
  then show ?thesis using sweep_snd by metis
qed




text \<open>
  Claim C3, as amended. Neither solve checks the count against the dimension itself;
  the index range of \<^verbatim>\<open>scipy.linalg.eigh\<close> is what fails. For a system whose
  \<^verbatim>\<open>hilbertdim()\<close> is the size of its Hamiltonian and a count above it, \<^verbatim>\<open>eigenvals\<close>
  and \<^verbatim>\<open>eigensys\<close> raise \<^verbatim>\<open>ValueError\<close> and leave every attribute as it was.
\<close>

theorem count_above_dimension:
  assumes "hilbertdim env s = int (length (hamiltonian env s))"
    and "hilbertdim env s < evals_count"
  shows "eigenvals env evals_count s = (Inl ValueError, s)
    \<and> eigensys env evals_count s = (Inl ValueError, s)"
  using assms
  by (simp add: eigenvals_def eigensys_def evals_calc_def esys_calc_def eigh_def)

theorem count_above_dimension_witness:
  "hilbertdim toy_env toy_attrs = int (length (hamiltonian toy_env toy_attrs))
   \<and> hilbertdim toy_env toy_attrs < 3
   \<and> eigenvals toy_env 3 toy_attrs = (Inl ValueError, toy_attrs)
   \<and> eigensys toy_env 3 toy_attrs = (Inl ValueError, toy_attrs)"
proof -
  have h1: "hilbertdim toy_env toy_attrs = int (length (hamiltonian toy_env toy_attrs))"
    by (simp add: toy_env_def toy_square)
  have h2: "hilbertdim toy_env toy_attrs < 3"
    by (simp add: toy_env_def)
  show ?thesis using h1 h2 count_above_dimension[OF h1 h2] by simp
qed

text \<open>
  Claim C3 as stated fails: on the two-level system a count of 3 does not raise
  \<open>DimensionError\<close>.
\<close>

theorem count_above_dimension_counterexample:
  "hilbertdim toy_env toy_attrs < 3
   \<and> fst (eigenvals toy_env 3 toy_attrs) \<noteq> Inl DimensionError
   \<and> fst (eigensys toy_env 3 toy_attrs) \<noteq> Inl DimensionError"
proof -
  have "hilbertdim toy_env toy_attrs < 3" by (simp add: toy_env_def)
  then show ?thesis
    by (simp add: eigenvals_def eigensys_def toy_evals_calc_3 toy_esys_calc_3)
qed

text \<open>
  Claim C4. The eigenvalues returned by \<^verbatim>\<open>eigenvals\<close> and by \<^verbatim>\<open>eigensys\<close>, and every row
  of the energy table of a sweep (with or without eigenvectors, with or without
  ground-state subtraction), are non-decreasing by level index.
\<close>

theorem energies_ascending:
  "(eigenvals env n s = (Inr evals, s1) \<longrightarrow> sorted evals)
   \<and> (eigensys env n s = (Inr (evals', evecs), s2) \<longrightarrow> sorted evals')
   \<and> (get_spectrum_vs_paramvals env p xs n sg ge c s = (Inr sd, s3) \<longrightarrow>
        (\<forall>row\<in>set (energy_table sd). sorted row))"
proof (intro conjI impI)
  assume "eigenvals env n s = (Inr evals, s1)"
  then show "sorted evals" by (auto simp: eigenvals_def dest: evals_calc_sorted)
next
  assume "eigensys env n s = (Inr (evals', evecs), s2)"
  then show "sorted evals'" by (auto simp: eigensys_def dest: esys_calc_sorted)
next
  assume a: "get_spectrum_vs_paramvals env p xs n sg ge c s = (Inr sd, s3)"
  from sweep_success[OF a] obtain raw
    where l: "list_all2 (\<lambda>v row. point_energies env p n ge s v = Inr row) xs raw"
      and e: "(if sg then subtract_ground_loop raw else Inr raw) = Inr (energy_table sd)"
    by blast
  have raw: "\<forall>row\<in>set raw. sorted row"
  proof
    fix row assume "row \<in> set raw"
    then obtain i where i: "i < length raw" and r: "raw ! i = row"
      by (auto simp: in_set_conv_nth)
    have "point_energies env p n ge s (xs ! i) = Inr (raw ! i)"
      using list_all2_nthD2[OF l i] .
    then show "sorted row" using r point_energies_sorted by blast
  qed
  show "\<forall>row\<in>set (energy_table sd). sorted row"
  proof (cases sg)
    case False
    then show ?thesis using raw e by simp
  next
    case True
    then have "list_all2 (\<lambda>row row'. subtract_ground_row row = Inr row') raw (energy_table sd)"
      using e subtract_ground_loop_rows by simp
    then have l2:
      "list_all2 (\<lambda>row row'. subtract_ground_row row = Inr row') raw (energy_table sd)" .
    show ?thesis
    proof
      fix row assume "row \<in> set (energy_table sd)"
      then obtain i where i: "i < length (energy_table sd)" and r: "energy_table sd ! i = row"
        by (auto simp: in_set_conv_nth)
      have s: "subtract_ground_row (raw ! i) = Inr (energy_table sd ! i)"
        using list_all2_nthD2[OF l2 i] .
      have "i < length raw" using l2 i by (simp add: list_all2_lengthD)
      then have "sorted (raw ! i)" using raw by simp
      then show "sorted row" using subtract_ground_row_sorted[OF s] r by simp
    qed
  qed
qed

theorem energies_ascending_witness:
  "eigenvals toy_env 2 toy_attrs = (Inr [1, 5], toy_attrs) \<and> sorted [1, 5::real]
   \<and> eigensys toy_env 2 toy_attrs = (Inr ([1, 5], [[0, 1], [1, 0]]), toy_attrs)
   \<and> sorted ([[0, 1], [0, 1::real]] ! 0) \<and> sorted ([[0, 1], [0, 1::real]] ! 1)"
proof -
  have a: "eigenvals toy_env 2 toy_attrs = (Inr [1, 5], toy_attrs)"
    by (simp add: eigenvals_def toy_evals_calc_2 toy_attrs_def attr_or_zero_def)
  have b: "eigensys toy_env 2 toy_attrs = (Inr ([1, 5], [[0, 1], [1, 0]]), toy_attrs)"
    by (simp add: eigensys_def toy_esys_calc_2 toy_attrs_def attr_or_zero_def)
  let ?sd = "\<lparr>energy_table = [[0, 1], [0, 1]], system_params = [(''x'', 5), (''ng'', 0)],
       param_name = ''x'', param_vals = [2, 0],
       state_table = Some [[[0, 1], [1, 0]], [[1, 0], [0, 1]]], matrixelem_table = None\<rparr>"
  show ?thesis
    using a b energies_ascending[of toy_env 2 toy_attrs "[1, 5]" toy_attrs "[1, 5]"
        "[[0, 1], [1, 0]]" toy_attrs "''x''" "[2, 0]" True True "Some 1" ?sd toy_attrs]
    by (simp add: toy_sweep_ground All_less_Suc)
qed



lemma update_func_frame: "agree_off {d, p} (update_func d p dv v t) t"
  by (simp add: update_func_def agree_off_def setattr_def)

lemma cell_frame:
  "agree_off {d, p} (snd (eigenvals env n (update_func d p dv v t))) t"
  by (simp add: eigenvals_def update_func_frame)

lemma ParameterSweep_frame:
  "agree_off {d, p} (snd (ParameterSweep env (update_func d p) dvs xs n c s)) s"
  unfolding ParameterSweep_def Let_def
  by (rule map_method_frame, rule map_method_frame, rule cell_frame)

lemma restore_both:
  assumes "agree_off {d, p} t s" and "s p = Some pv" and "s d = Some dv"
  shows "setattr (setattr t p pv) d dv = s"
proof (rule ext)
  fix k
  show "setattr (setattr t p pv) d dv k = s k"
    using assms by (cases "k = d"; cases "k = p") (auto simp: setattr_def agree_off_def)
qed

lemma compute_dispersion_success:
  assumes "compute_dispersion env d p xs tr lv pc c s = (Inr (cube, disp), s')"
  shows "\<exists>dvs ml t pv dv. np_linspace 0 1 pc = Inr dvs \<and> s p = Some pv \<and> s d = Some dv
           \<and> d \<noteq> p
           \<and> (if levels_falsy lv then np_max_transitions tr else np_max_levels lv) = Inr ml
           \<and> ParameterSweep env (update_func d p) dvs xs (ml + 1) c s = (Inr cube, t)
           \<and> dispersions_of cube (length xs) tr lv = Inr disp
           \<and> s' = setattr (setattr t p pv) d dv"
  using assms
  unfolding compute_dispersion_def getattr_def
  by (auto split: sum.splits option.splits if_splits prod.splits)

lemma compute_dispersion_snd:
  assumes "compute_dispersion env d p xs tr lv pc c s = (Inr r, s')"
  shows "s' = s"
proof -
  obtain cube disp where r: "r = (cube, disp)" by (cases r)
  from compute_dispersion_success[OF assms[unfolded r]]
  obtain dvs ml t pv dv where sp: "s p = Some pv" and sd: "s d = Some dv"
    and sw: "ParameterSweep env (update_func d p) dvs xs (ml + 1) c s = (Inr cube, t)"
    and s': "s' = setattr (setattr t p pv) d dv"
    by blast
  have "agree_off {d, p} t s"
    using ParameterSweep_frame[of d p env dvs xs "ml + 1" c s] sw by simp
  then show ?thesis using restore_both sp sd s' by simp
qed

lemma get_dispersion_success:
  assumes "get_dispersion_vs_paramvals env d p xs rp tr lv pc c s = (Inr dd, s', xs')"
  shows "\<exists>tr' lv' cube disp pname' params.
           normalize_args tr lv = Inr (tr', lv')
           \<and> compute_dispersion env d p xs tr' lv' pc c s = (Inr (cube, disp), s')
           \<and> apply_ref_param s' rp p xs = Inr (pname', xs')
           \<and> get_initdata env s' = Inr params
           \<and> dd = \<lparr>disp_energy_table = cube, disp_system_params = params,
                   disp_param_name = pname', disp_param_vals = xs',
                   disp_labels = labels_of tr' lv',
                   dispersion = np_transpose (length xs) disp\<rparr>"
  using assms
  unfolding get_dispersion_vs_paramvals_def
  by (auto split: sum.splits prod.splits)

lemma get_dispersion_snd:
  assumes "get_dispersion_vs_paramvals env d p xs rp tr lv pc c s = (Inr dd, s', xs')"
  shows "s' = s"
  using get_dispersion_success[OF assms] compute_dispersion_snd by blast


lemma setattr_same: "s p = Some v \<Longrightarrow> setattr s p v = s"
  by (rule ext) (simp add: setattr_def)

lemma finish_sweep_same:
  "s p = Some prev \<Longrightarrow> snd (finish_sweep env p xs sg prev raw states s) = s"
  by (simp add: finish_sweep_def Let_def setattr_same split: sum.splits)

lemma sweep_par_snd:
  assumes "num_cpus_or env c \<noteq> 1"
  shows "snd (get_spectrum_vs_paramvals env p xs n sg ge c s) = s"
proof (cases "s p")
  case None
  then show ?thesis by (simp add: get_spectrum_vs_paramvals_def getattr_def)
next
  case (Some prev)
  have "\<And>raw states. snd (finish_sweep env p xs sg prev raw states s) = s"
    using Some by (rule finish_sweep_same)
  then show ?thesis using assms Some
    by (simp add: get_spectrum_vs_paramvals_def getattr_def Let_def get_map_method_def
        map_par_def recast_esys_mapdata_def split: sum.splits)
qed

lemma ParameterSweep_par_snd:
  "num_cpus_or env c \<noteq> 1 \<Longrightarrow> snd (ParameterSweep env f dvs xs n c s) = s"
  by (simp add: ParameterSweep_def Let_def get_map_method_def map_par_def)

lemma dispersion_par_snd:
  assumes "num_cpus_or env c \<noteq> 1"
  shows "snd (compute_dispersion env d p xs tr lv pc c s) = s"
proof -
  have sw: "\<And>dvs ml r t. ParameterSweep env (update_func d p) dvs xs ml c s = (r, t) \<Longrightarrow> t = s"
    using ParameterSweep_par_snd[OF assms] by (metis snd_conv)
  show ?thesis
    unfolding compute_dispersion_def getattr_def
    by (auto split: sum.splits option.splits prod.splits dest!: sw
        simp: setattr_same)
qed


lemma get_dispersion_par_snd:
  assumes "num_cpus_or env c \<noteq> 1"
  shows "fst (snd (get_dispersion_vs_paramvals env d p xs rp tr lv pc c s)) = s"
proof -
  have cd: "\<And>tr' lv' r t. compute_dispersion env d p xs tr' lv' pc c s = (r, t) \<Longrightarrow> t = s"
    using dispersion_par_snd[OF assms] by (metis snd_conv)
  show ?thesis
    unfolding get_dispersion_vs_paramvals_def
    by (auto split: sum.splits prod.splits dest!: cd)
qed

lemma toy_evals_calc_1:
  "evals_calc toy_env s 1 = Inr [min (attr_or_zero s ''x'') (1 + attr_or_zero s ''ng'')]"
proof -
  have "toy_hamiltonian s \<noteq> []" by (simp add: toy_hamiltonian_def)
  then show ?thesis
    using toy_square[of s]
    by (simp add: evals_calc_def eigh_def toy_env_def toy_lapack Let_def slice_def min_def)
qed

lemma linspace_2: "np_linspace 0 1 2 = Inr [0, 1]"
  by (simp add: np_linspace_def upt_0_2)

lemma toy_cell:
  "attr_or_zero (update_func ''ng'' ''x'' dv v t) ''x'' = v"
  "attr_or_zero (update_func ''ng'' ''x'' dv v t) ''ng'' = dv"
  by (simp_all add: update_func_def setattr_def attr_or_zero_def)

lemma toy_sweep2:
  "c = Some 1 \<or> c = Some 4 \<Longrightarrow>
   fst (ParameterSweep toy_env (update_func ''ng'' ''x'') [0, 1] [0, 10] 2 c toy_attrs)
     = Inr [[[0, 1], [1, 10]], [[0, 2], [2, 10]]]"
  by (auto simp add: ParameterSweep_def num_cpus_or_def get_map_method_def map_par_def
      eigenvals_def toy_evals_calc_2 toy_cell)

lemma toy_sweep1:
  "c = Some 1 \<or> c = Some 4 \<Longrightarrow>
   fst (ParameterSweep toy_env (update_func ''ng'' ''x'') [0, 1] [0, 10] 1 c toy_attrs)
     = Inr [[[0], [1]], [[0], [2]]]"
  by (auto simp add: ParameterSweep_def num_cpus_or_def get_map_method_def map_par_def
      eigenvals_def toy_evals_calc_1 toy_cell)

lemma Max_2: "Max {a, b} = max a (b::real)" and Min_2: "Min {a, b} = min a (b::real)"
  by simp_all

lemma toy_disp_transition:
  "dispersions_of [[[0, 1], [1, 10]], [[0, 2], [2, 10]]] (Suc (Suc 0)) (TSeq [(0, 1)]) LNone
     = Inr [[1, 1]]"
  by (simp add: dispersions_of_def transition_dispersion_def take_level_def py_index_def
      max_minus_min_def np_max_axis0_def np_min_axis0_def column_def)

lemma toy_disp_level:
  "dispersions_of [[[0], [1]], [[0], [2]]] (Suc (Suc 0)) tr (LSeq [0]) = Inr [[0, 1]]"
  by (simp add: dispersions_of_def level_dispersion_def take_level_def py_index_def
      max_minus_min_def np_max_axis0_def np_min_axis0_def column_def)

lemma pair_of_fst: "fst x = a \<Longrightarrow> x = (a, snd x)"
  by (cases x) simp

lemma toy_compute_transition:
  assumes "c = Some 1 \<or> c = Some 4"
  shows "compute_dispersion toy_env ''ng'' ''x'' [0, 10] (TSeq [(0, 1)]) LNone 2 c toy_attrs
     = (Inr ([[[0, 1], [1, 10]], [[0, 2], [2, 10]]], [[1, 1]]), toy_attrs)"
  (is "?call = _")
proof -
  obtain t where sw:
    "ParameterSweep toy_env (update_func ''ng'' ''x'') [0, 1] [0, 10] 2 c toy_attrs
       = (Inr [[[0, 1], [1, 10]], [[0, 2], [2, 10]]], t)"
    using pair_of_fst[OF toy_sweep2[OF assms]] by blast
  have "fst ?call = Inr ([[[0, 1], [1, 10]], [[0, 2], [2, 10]]], [[1, 1]])"
    by (simp add: compute_dispersion_def linspace_2 getattr_def toy_attrs_simps
        levels_falsy_def np_max_transitions_def np_max_list_def sw toy_disp_transition)
  then have "?call = (Inr ([[[0, 1], [1, 10]], [[0, 2], [2, 10]]], [[1, 1]]), snd ?call)"
    by (rule pair_of_fst)
  then show ?thesis using compute_dispersion_snd by metis
qed

lemma toy_compute_level:
  assumes "c = Some 1 \<or> c = Some 4"
  shows "compute_dispersion toy_env ''ng'' ''x'' [0, 10] tr (LSeq [0]) 2 c toy_attrs
     = (Inr ([[[0], [1]], [[0], [2]]], [[0, 1]]), toy_attrs)"
  (is "?call = _")
proof -
  obtain t where sw:
    "ParameterSweep toy_env (update_func ''ng'' ''x'') [0, 1] [0, 10] 1 c toy_attrs
       = (Inr [[[0], [1]], [[0], [2]]], t)"
    using pair_of_fst[OF toy_sweep1[OF assms]] by blast
  have "fst ?call = Inr ([[[0], [1]], [[0], [2]]], [[0, 1]])"
    by (simp add: compute_dispersion_def linspace_2 getattr_def toy_attrs_simps
        levels_falsy_def np_max_levels_def np_max_list_def sw toy_disp_level)
  then have "?call = (Inr ([[[0], [1]], [[0], [2]]], [[0, 1]]), snd ?call)"
    by (rule pair_of_fst)
  then show ?thesis using compute_dispersion_snd by metis
qed

lemma toy_transpose: "np_transpose (Suc (Suc 0)) [[a, b]] = [[a], [b]]"
  by (simp add: np_transpose_def column_def)

lemma toy_get_dispersion_transition:
  assumes "c = Some 1 \<or> c = Some 4"
  shows "get_dispersion_vs_paramvals toy_env ''ng'' ''x'' [0, 10] (Some ''x'') (TPair 0 1) LNone
       2 c toy_attrs
     = (Inr \<lparr>disp_energy_table = [[[0, 1], [1, 10]], [[0, 2], [2, 10]]],
             disp_system_params = [(''x'', 5), (''ng'', 0)],
             disp_param_name = ''x/x'', disp_param_vals = [0, 2],
             disp_labels = TransitionLabels (TSeq [(0, 1)]),
             dispersion = [[1], [1]]\<rparr>, toy_attrs, [0, 2])"
  by (simp add: get_dispersion_vs_paramvals_def normalize_args_def
      toy_compute_transition[OF assms] apply_ref_param_def getattr_def toy_attrs_simps
      toy_initdata labels_of_def toy_transpose)

lemma toy_get_dispersion_level:
  assumes "c = Some 1 \<or> c = Some 4"
  shows "get_dispersion_vs_paramvals toy_env ''ng'' ''x'' [0, 10] None (TSeq []) (LInt 0)
       2 c toy_attrs
     = (Inr \<lparr>disp_energy_table = [[[0], [1]], [[0], [2]]],
             disp_system_params = [(''x'', 5), (''ng'', 0)],
             disp_param_name = ''x'', disp_param_vals = [0, 10],
             disp_labels = LevelLabels [0],
             dispersion = [[0], [1]]\<rparr>, toy_attrs, [0, 10])"
  by (simp add: get_dispersion_vs_paramvals_def normalize_args_def
      toy_compute_level[OF assms] apply_ref_param_def getattr_def toy_attrs_simps
      toy_initdata labels_of_def toy_transpose)

text \<open>
  Claim C1, as amended. After every sweep and every dispersion call that returns
  normally, all attributes of the system, the swept ones among them, are what they were
  before the call; and with a worker count other than 1, where the workers change copies,
  this holds after a call that raises as well.
\<close>

theorem attributes_restored_on_return:
  "(get_spectrum_vs_paramvals env p xs n sg ge c s = (Inr sd, s1) \<longrightarrow> s1 = s)
   \<and> (compute_dispersion env d p xs tr lv pc c s = (Inr r, s2) \<longrightarrow> s2 = s)
   \<and> (get_dispersion_vs_paramvals env d p xs rp tr lv pc c s = (Inr dd, s3, xs') \<longrightarrow> s3 = s)
   \<and> (num_cpus_or env c \<noteq> 1 \<longrightarrow>
        snd (get_spectrum_vs_paramvals env p xs n sg ge c s) = s
        \<and> snd (compute_dispersion env d p xs tr lv pc c s) = s
        \<and> fst (snd (get_dispersion_vs_paramvals env d p xs rp tr lv pc c s)) = s)"
  using sweep_snd[of env p xs n sg ge c s sd s1]
    compute_dispersion_snd[of env d p xs tr lv pc c s r s2]
    get_dispersion_snd[of env d p xs rp tr lv pc c s dd s3 xs']
    sweep_par_snd[of env c p xs n sg ge s]
    dispersion_par_snd[of env c d p xs tr lv pc s]
    get_dispersion_par_snd[of env c d p xs rp tr lv pc s]
  by blast

theorem attributes_restored_on_return_witness:
  "get_spectrum_vs_paramvals toy_env ''x'' [2, 0] 2 False False (Some 1) toy_attrs
     = (Inr \<lparr>energy_table = [[1, 2], [0, 1]], system_params = [(''x'', 5), (''ng'', 0)],
             param_name = ''x'', param_vals = [2, 0], state_table = None,
             matrixelem_table = None\<rparr>, toy_attrs)
   \<and> compute_dispersion toy_env ''ng'' ''x'' [0, 10] (TPair 0 1) (LSeq [0]) 2 (Some 1) toy_attrs
     = (Inr ([[[0], [1]], [[0], [2]]], [[0, 1]]), toy_attrs)
   \<and> get_spectrum_vs_paramvals toy_env ''x'' [2, 0] 2 False False (Some 4) toy_attrs
     = (Inr \<lparr>energy_table = [[1, 2], [0, 1]], system_params = [(''x'', 5), (''ng'', 0)],
             param_name = ''x'', param_vals = [2, 0], state_table = None,
             matrixelem_table = None\<rparr>, toy_attrs)
   \<and> num_cpus_or toy_env (Some 4) \<noteq> 1
   \<and> snd (get_spectrum_vs_paramvals toy_env ''x'' [2, 0] 3 False False (Some 4) toy_attrs)
       = toy_attrs"
proof -
  let ?sd = "\<lparr>energy_table = [[1, 2], [0, 1]], system_params = [(''x'', 5), (''ng'', 0)],
             param_name = ''x'', param_vals = [2, 0], state_table = None,
             matrixelem_table = None\<rparr>"
  let ?seq = "get_spectrum_vs_paramvals toy_env ''x'' [2, 0] 2 False False (Some 1) toy_attrs"
  let ?par = "get_spectrum_vs_paramvals toy_env ''x'' [2, 0] 2 False False (Some 4) toy_attrs"
  let ?disp = "compute_dispersion toy_env ''ng'' ''x'' [0, 10] (TPair 0 1) (LSeq [0]) 2
      (Some 1) toy_attrs"
  have a1: "fst ?seq = Inr ?sd" by (simp add: sweep_fst ex1)
  have a4: "fst ?par = Inr ?sd" by (simp add: sweep_fst ex1)
  have b: "fst ?disp = Inr ([[[0], [1]], [[0], [2]]], [[0, 1]])"
    by (simp add: toy_compute_level)
  have c: "num_cpus_or toy_env (Some 4) \<noteq> 1" by (simp add: num_cpus_or_def)
  have 1: "snd ?seq = toy_attrs"
    using attributes_restored_on_return[of toy_env "''x''" "[2, 0]" 2 False False "Some 1"
        toy_attrs ?sd "snd ?seq"] pair_of_fst[OF a1]
    by simp
  have 2: "snd ?disp = toy_attrs"
    using attributes_restored_on_return[of toy_env "''x''" "[0, 10]" _ _ _ "Some 1"
        toy_attrs _ _ "''ng''" "TPair 0 1" "LSeq [0]" 2
        "([[[0], [1]], [[0], [2]]], [[0, 1]])" "snd ?disp"] pair_of_fst[OF b]
    by simp
  have 3: "snd ?par = toy_attrs"
    using attributes_restored_on_return[of toy_env "''x''" "[2, 0]" 2 False False "Some 4"
        toy_attrs ?sd "snd ?par"] pair_of_fst[OF a4]
    by simp
  have 4: "snd (get_spectrum_vs_paramvals toy_env ''x'' [2, 0] 3 False False (Some 4) toy_attrs)
       = toy_attrs"
    using attributes_restored_on_return[of toy_env "''x''" "[2, 0]" 3 False False "Some 4"
        toy_attrs] c
    by simp
  show ?thesis
    using 1 2 3 4 c pair_of_fst[OF a1] pair_of_fst[OF a4] pair_of_fst[OF b] by simp
qed

text \<open>
  Claim C1 as stated fails: a sequential sweep over \<open>x\<close> whose first solve raises
  (three eigenvalues of a two-level system) ends with \<open>x\<close> at the first swept value, 2,
  not at its value before the call, 5.
\<close>

theorem sweep_exception_leaves_parameter_counterexample:
  "fst (get_spectrum_vs_paramvals toy_env ''x'' [2, 0] 3 False False (Some 1) toy_attrs)
     = Inl ValueError
   \<and> getattr (snd (get_spectrum_vs_paramvals toy_env ''x'' [2, 0] 3 False False (Some 1)
         toy_attrs)) ''x'' = Inr 2
   \<and> getattr toy_attrs ''x'' = Inr 5"
  by (simp add: get_spectrum_vs_paramvals_def getattr_def toy_attrs_simps num_cpus_or_def
      get_map_method_def evals_for_paramval_def eigenvals_def toy_evals_calc_3 setattr_def)

lemma compute_dispersion_levels_given:
  "ls \<noteq> [] \<Longrightarrow>
   compute_dispersion env d p xs tr (LSeq ls) pc c s
     = compute_dispersion env d p xs tr' (LSeq ls) pc c s"
proof -
  assume ne: "ls \<noteq> []"
  have ds: "\<And>cube k. dispersions_of cube k tr (LSeq ls) = dispersions_of cube k tr' (LSeq ls)"
    by (simp add: dispersions_of_def)
  show ?thesis
    using ne unfolding compute_dispersion_def levels_falsy_def ds[of _ _]
    by (simp add: ds)
qed

lemma labels_of_levels_given:
  "ls \<noteq> [] \<Longrightarrow> labels_of tr (LSeq ls) = labels_of tr' (LSeq ls)"
  by (cases ls) (simp_all add: labels_of_def)

lemma get_dispersion_after_normalize:
  "normalize_args tr lv = Inr (tr1, lv1) \<Longrightarrow> normalize_args tr' lv' = Inr (tr2, lv2) \<Longrightarrow>
   compute_dispersion env d p xs tr1 lv1 pc c s = compute_dispersion env d p xs tr2 lv2 pc c s \<Longrightarrow>
   labels_of tr1 lv1 = labels_of tr2 lv2 \<Longrightarrow>
   get_dispersion_vs_paramvals env d p xs rp tr lv pc c s
     = get_dispersion_vs_paramvals env d p xs rp tr' lv' pc c s"
  by (simp add: get_dispersion_vs_paramvals_def split: sum.splits prod.splits)

text \<open>
  Claim C7: a bare integer for \<^verbatim>\<open>levels\<close> is to behave as the one-element sequence.
  The code at the input where it does not: with \<^verbatim>\<open>transitions=()\<close> the bare level 0
  returns the level dispersion, while the sequence \<open>(0,)\<close> raises \<^verbatim>\<open>IndexError\<close>,
  because the \<^verbatim>\<open>elif\<close> of line 534 reads \<^verbatim>\<open>transitions[0]\<close> although \<^verbatim>\<open>levels\<close> is
  given and, by the docstring, overrides \<^verbatim>\<open>transitions\<close>.
\<close>

theorem levels_tuple_reads_empty_transitions:
  "fst (get_dispersion_vs_paramvals toy_env ''ng'' ''x'' [0, 10] None (TSeq []) (LInt 0) 2
          (Some 1) toy_attrs)
     = Inr \<lparr>disp_energy_table = [[[0], [1]], [[0], [2]]],
            disp_system_params = [(''x'', 5), (''ng'', 0)],
            disp_param_name = ''x'', disp_param_vals = [0, 10],
            disp_labels = LevelLabels [0], dispersion = [[0], [1]]\<rparr>
   \<and> fst (get_dispersion_vs_paramvals toy_env ''ng'' ''x'' [0, 10] None (TSeq []) (LSeq [0]) 2
          (Some 1) toy_attrs)
     = Inl IndexError"
  by (simp add: toy_get_dispersion_level)
     (simp add: get_dispersion_vs_paramvals_def normalize_args_def)

text \<open>
  On every other input the two forms do agree: a bare integer \<open>n\<close> for \<^verbatim>\<open>levels\<close>
  gives what \<open>(n,)\<close> gives when \<^verbatim>\<open>transitions\<close> is not the empty sequence, and a
  single pair \<open>(i, j)\<close> for \<^verbatim>\<open>transitions\<close> gives what \<open>((i, j),)\<close> gives for every
  \<^verbatim>\<open>levels\<close>: the same result or exception, the same attributes and the same
  parameter array.
\<close>

lemma bare_arguments_as_singletons:
  "(tr \<noteq> TSeq [] \<longrightarrow>
      get_dispersion_vs_paramvals env d p xs rp tr (LInt n) pc c s
        = get_dispersion_vs_paramvals env d p xs rp tr (LSeq [n]) pc c s)
   \<and> get_dispersion_vs_paramvals env d p xs rp (TPair i j) lv pc c s
        = get_dispersion_vs_paramvals env d p xs rp (TSeq [(i, j)]) lv pc c s"
proof (intro conjI impI)
  assume ne: "tr \<noteq> TSeq []"
  have "\<exists>tr2. normalize_args tr (LSeq [n]) = Inr (tr2, LSeq [n])"
  proof (cases tr)
    case (TPair a b)
    then show ?thesis by (simp add: normalize_args_def)
  next
    case (TSeq ts)
    then show ?thesis using ne by (cases ts) (simp_all add: normalize_args_def)
  qed
  then obtain tr2 where n2: "normalize_args tr (LSeq [n]) = Inr (tr2, LSeq [n])" by blast
  have n1: "normalize_args tr (LInt n) = Inr (tr, LSeq [n])"
    by (simp add: normalize_args_def)
  show "get_dispersion_vs_paramvals env d p xs rp tr (LInt n) pc c s
        = get_dispersion_vs_paramvals env d p xs rp tr (LSeq [n]) pc c s"
    by (rule get_dispersion_after_normalize[OF n1 n2])
       (simp_all add: compute_dispersion_levels_given[of "[n]" env d p xs tr pc c s tr2]
          labels_of_levels_given[of "[n]" tr tr2])
next
  show "get_dispersion_vs_paramvals env d p xs rp (TPair i j) lv pc c s
        = get_dispersion_vs_paramvals env d p xs rp (TSeq [(i, j)]) lv pc c s"
  proof (cases lv)
    case LNone
    then show ?thesis
      by (simp add: get_dispersion_vs_paramvals_def normalize_args_def)
  next
    case (LInt n)
    have n1: "normalize_args (TPair i j) lv = Inr (TPair i j, LSeq [n])"
      and n2: "normalize_args (TSeq [(i, j)]) lv = Inr (TSeq [(i, j)], LSeq [n])"
      using LInt by (simp_all add: normalize_args_def)
    show ?thesis
      by (rule get_dispersion_after_normalize[OF n1 n2])
         (simp_all add: compute_dispersion_levels_given[of "[n]" env d p xs "TPair i j" pc c s
            "TSeq [(i, j)]"] labels_of_levels_given[of "[n]" "TPair i j" "TSeq [(i, j)]"])
  next
    case (LSeq ls)
    then show ?thesis
      by (simp add: get_dispersion_vs_paramvals_def normalize_args_def)
  qed
qed

lemma bare_arguments_as_singletons_example:
  "TPair 0 1 \<noteq> TSeq []
   \<and> get_dispersion_vs_paramvals toy_env ''ng'' ''x'' [0, 10] None (TPair 0 1) (LInt 0) 2
        (Some 1) toy_attrs
     = get_dispersion_vs_paramvals toy_env ''ng'' ''x'' [0, 10] None (TPair 0 1) (LSeq [0]) 2
        (Some 1) toy_attrs
   \<and> get_dispersion_vs_paramvals toy_env ''ng'' ''x'' [0, 10] None (TPair 0 1) LNone 2
        (Some 1) toy_attrs
     = get_dispersion_vs_paramvals toy_env ''ng'' ''x'' [0, 10] None (TSeq [(0, 1)]) LNone 2
        (Some 1) toy_attrs"
  using bare_arguments_as_singletons[of "TPair 0 1" toy_env "''ng''" "''x''" "[0, 10]" None 0 2
      "Some 1" toy_attrs 0 1 LNone]
  by simp

text \<open>
  Claim C10. With a reference parameter, a call that returns has divided the caller's
  array in place: every element is its original value divided by the value of the
  reference attribute (nonzero; the value is the same before and after the call), and
  the container carries this array and the name \<open>param_name/ref_param\<close>. Without a
  reference parameter the array is never changed, and the container carries it and the
  plain name.
\<close>

theorem ref_param_divides_in_place:
  "(get_dispersion_vs_paramvals env d p xs (Some rp) tr lv pc c s = (Inr dd, s', xs') \<longrightarrow>
      (\<exists>r. getattr s rp = Inr r \<and> getattr s' rp = Inr r
          \<and> length xs' = length xs \<and> (r \<noteq> 0 \<longrightarrow> (\<forall>i<length xs. xs' ! i = xs ! i / r))
          \<and> disp_param_vals dd = xs' \<and> disp_param_name dd = p @ ''/'' @ rp))
   \<and> snd (snd (get_dispersion_vs_paramvals env d p xs None tr lv pc c s)) = xs
   \<and> (get_dispersion_vs_paramvals env d p xs None tr lv pc c s = (Inr dd0, s0, xs0) \<longrightarrow>
        disp_param_vals dd0 = xs \<and> disp_param_name dd0 = p)"
proof (intro conjI impI)
  assume a: "get_dispersion_vs_paramvals env d p xs (Some rp) tr lv pc c s = (Inr dd, s', xs')"
  have s': "s' = s" using get_dispersion_snd[OF a] .
  from get_dispersion_success[OF a] obtain pname' where
    r: "apply_ref_param s' (Some rp) p xs = Inr (pname', xs')"
    and dd: "disp_param_vals dd = xs'" "disp_param_name dd = pname'"
    by auto
  from r obtain rv where g: "getattr s' rp = Inr rv" and x: "xs' = map (\<lambda>v. v / rv) xs"
    and pn: "pname' = p @ ''/'' @ rp"
    by (auto simp: apply_ref_param_def split: sum.splits)
  show "\<exists>r. getattr s rp = Inr r \<and> getattr s' rp = Inr r
          \<and> length xs' = length xs \<and> (r \<noteq> 0 \<longrightarrow> (\<forall>i<length xs. xs' ! i = xs ! i / r))
          \<and> disp_param_vals dd = xs' \<and> disp_param_name dd = p @ ''/'' @ rp"
    using g x pn dd s' by auto
next
  show "snd (snd (get_dispersion_vs_paramvals env d p xs None tr lv pc c s)) = xs"
    by (simp add: get_dispersion_vs_paramvals_def apply_ref_param_def
        split: sum.splits prod.splits)
next
  assume a: "get_dispersion_vs_paramvals env d p xs None tr lv pc c s = (Inr dd0, s0, xs0)"
  from get_dispersion_success[OF a]
  show "disp_param_vals dd0 = xs" by (auto simp: apply_ref_param_def)
  from get_dispersion_success[OF a]
  show "disp_param_name dd0 = p" by (auto simp: apply_ref_param_def)
qed


theorem ref_param_divides_in_place_witness:
  "get_dispersion_vs_paramvals toy_env ''ng'' ''x'' [0, 10] (Some ''x'') (TPair 0 1) LNone 2
       (Some 1) toy_attrs
     = (Inr \<lparr>disp_energy_table = [[[0, 1], [1, 10]], [[0, 2], [2, 10]]],
             disp_system_params = [(''x'', 5), (''ng'', 0)],
             disp_param_name = ''x/x'', disp_param_vals = [0, 2],
             disp_labels = TransitionLabels (TSeq [(0, 1)]),
             dispersion = [[1], [1]]\<rparr>, toy_attrs, [0, 2])
   \<and> getattr toy_attrs ''x'' = Inr 5
   \<and> [0, 2] ! 1 = [0, 10] ! 1 / (5::real)
   \<and> snd (snd (get_dispersion_vs_paramvals toy_env ''ng'' ''x'' [0, 10] None (TPair 0 1) LNone 2
       (Some 1) toy_attrs)) = [0, 10]"
proof -
  let ?dd = "\<lparr>disp_energy_table = [[[0, 1], [1, 10]], [[0, 2], [2, 10]]],
             disp_system_params = [(''x'', 5), (''ng'', 0)],
             disp_param_name = ''x/x'', disp_param_vals = [0, 2],
             disp_labels = TransitionLabels (TSeq [(0, 1)]),
             dispersion = [[1], [1]]\<rparr>"
  have g: "getattr toy_attrs ''x'' = Inr 5" by (simp add: getattr_def toy_attrs_simps)
  show ?thesis
    using ref_param_divides_in_place[of toy_env "''ng''" "''x''" "[0, 10]" "''x''" "TPair 0 1"
        LNone 2 "Some 1" toy_attrs ?dd toy_attrs "[0, 2]"] g
    by (simp add: toy_get_dispersion_transition All_less_Suc)
qed

lemma collect_map_char:
  assumes "collect (map f xs) = Inr ys" and "\<And>x y. f x = Inr y \<Longrightarrow> y = g x"
  shows "ys = map g xs"
proof -
  have m: "map f xs = map Inr ys" using assms(1) by (simp add: collect_Inr_iff)
  then have len: "length xs = length ys" by (metis length_map)
  have "\<And>i. i < length xs \<Longrightarrow> f (xs ! i) = Inr (ys ! i)"
    using m len by (metis nth_map)
  then have "\<And>i. i < length xs \<Longrightarrow> ys ! i = g (xs ! i)"
    using assms(2) by blast
  then show ?thesis using len by (simp add: list_eq_iff_nth_eq)
qed

lemma collect_map_nth:
  assumes "collect (map f xs) = Inr ys"
  shows "length ys = length xs" and "\<And>i. i < length xs \<Longrightarrow> f (xs ! i) = Inr (ys ! i)"
proof -
  have m: "map f xs = map Inr ys" using assms(1) by (simp add: collect_Inr_iff)
  then show len: "length ys = length xs" by (metis length_map)
  show "\<And>i. i < length xs \<Longrightarrow> f (xs ! i) = Inr (ys ! i)"
    using m len by (metis nth_map)
qed

lemma py_index_level: "py_index row i = Inr v \<Longrightarrow> v = level_of row i"
  by (auto simp: py_index_def level_of_def split: if_splits)

lemma take_level_char:
  assumes "take_level cube i = Inr E"
  shows "E = map (map (\<lambda>row. level_of row i)) cube"
proof (rule collect_map_char[OF assms[unfolded take_level_def]])
  fix plane :: "real list list" and y
  assume "collect (map (\<lambda>row. py_index row i) plane) = Inr y"
  then show "y = map (\<lambda>row. level_of row i) plane"
    by (rule collect_map_char) (rule py_index_level)
qed

lemma map2_same: "map2 f (map g xs) (map h xs) = map (\<lambda>x. f (g x) (h x)) xs"
  by (induction xs) auto

lemma column_maps:
  "\<forall>plane\<in>set cube. k < length plane \<Longrightarrow>
   column (map (map F) cube) k = map (\<lambda>plane. F (plane ! k)) cube"
  by (simp add: column_def)

lemma max_minus_min_char:
  assumes "max_minus_min ncols a = Inr row" and "k < ncols"
  shows "row ! k = Max (set (column a k)) - Min (set (column a k))" and "a \<noteq> []"
proof -
  have ne: "ncols \<noteq> 0" using assms(2) by simp
  show a: "a \<noteq> []"
    using assms(1) ne
    by (auto simp: max_minus_min_def np_max_axis0_def split: if_splits sum.splits)
  have "row = map2 (-) (map (\<lambda>k. Max (set (column a k))) [0..<ncols])
                       (map (\<lambda>k. Min (set (column a k))) [0..<ncols])"
    using assms(1) ne a
    by (auto simp: max_minus_min_def np_max_axis0_def np_min_axis0_def
        split: if_splits sum.splits)
  then have "row = map (\<lambda>k. Max (set (column a k)) - Min (set (column a k))) [0..<ncols]"
    by (simp add: map2_same)
  then show "row ! k = Max (set (column a k)) - Min (set (column a k))"
    using assms(2) by simp
qed

lemma spread_column:
  "\<forall>plane\<in>set cube. k < length plane \<Longrightarrow>
   Max (set (column (map (map F) cube) k)) - Min (set (column (map (map F) cube) k))
     = spread (\<lambda>plane. F (plane ! k)) cube"
  by (simp add: column_maps spread_def)

lemma transition_dispersion_char:
  assumes "transition_dispersion cube ncols (i, j) = Inr row"
    and "\<forall>plane\<in>set cube. length plane = ncols" and "k < ncols"
  shows "row ! k
     = spread (\<lambda>plane. level_of (plane ! k) i - level_of (plane ! k) j) cube"
proof -
  from assms(1) obtain Ei Ej where i: "take_level cube i = Inr Ei"
    and j: "take_level cube j = Inr Ej"
    and m: "max_minus_min ncols (map2 (map2 (-)) Ei Ej) = Inr row"
    by (auto simp: transition_dispersion_def split: sum.splits)
  have "map2 (map2 (-)) Ei Ej
      = map (map (\<lambda>row. level_of row i - level_of row j)) cube"
    unfolding take_level_char[OF i] take_level_char[OF j]
    by (simp add: map2_same)
  then have m': "max_minus_min ncols (map (map (\<lambda>row. level_of row i - level_of row j)) cube)
      = Inr row"
    using m by simp
  have b: "\<forall>plane\<in>set cube. k < length plane" using assms(2,3) by simp
  show ?thesis
    using max_minus_min_char(1)[OF m' assms(3)] spread_column[OF b] by simp
qed

lemma level_dispersion_char:
  assumes "level_dispersion cube ncols j = Inr row"
    and "\<forall>plane\<in>set cube. length plane = ncols" and "k < ncols"
  shows "row ! k = spread (\<lambda>plane. level_of (plane ! k) j) cube" and "cube \<noteq> []"
proof -
  from assms(1) obtain Ej where j: "take_level cube j = Inr Ej"
    and m: "max_minus_min ncols Ej = Inr row"
    by (auto simp: level_dispersion_def split: sum.splits)
  have m': "max_minus_min ncols (map (map (\<lambda>row. level_of row j)) cube) = Inr row"
    using m take_level_char[OF j] by simp
  have b: "\<forall>plane\<in>set cube. k < length plane" using assms(2,3) by simp
  show "row ! k = spread (\<lambda>plane. level_of (plane ! k) j) cube"
    using max_minus_min_char(1)[OF m' assms(3)] spread_column[OF b] by simp
  show "cube \<noteq> []" using max_minus_min_char(2)[OF m' assms(3)] by simp
qed

lemma spread_constant:
  assumes "samples \<noteq> []" and "\<forall>x\<in>set samples. \<forall>y\<in>set samples. f x = f y"
  shows "spread f samples = 0"
proof -
  obtain x where x: "x \<in> set samples" using assms(1) by (cases samples) auto
  have "\<And>y. y \<in> set samples \<Longrightarrow> f y = f x" using assms(2) x by blast
  then have "f ` set samples \<subseteq> {f x}" by blast
  moreover have "f x \<in> f ` set samples" using x by (rule imageI)
  ultimately have "f ` set samples = {f x}" by blast
  then show ?thesis by (simp add: spread_def)
qed

lemma map_method_length:
  assumes "get_map_method c f xs s = (Inr ys, t)"
  shows "length ys = length xs"
proof -
  have ms: "\<And>s ys t. map_seq f xs s = (Inr ys, t) \<Longrightarrow> length ys = length xs"
  proof (induction xs)
    case Nil
    then show ?case by simp
  next
    case (Cons x xs)
    then show ?case
      by (auto split: prod.splits sum.splits)
  qed
  show ?thesis
  proof (cases "c = 1")
    case True
    then show ?thesis using assms ms by (simp add: get_map_method_def)
  next
    case False
    then have "collect (map (\<lambda>x. fst (f x s)) xs) = Inr ys"
      using assms by (auto simp add: get_map_method_def map_par_def)
    then show ?thesis by (rule collect_map_nth(1))
  qed
qed

lemma ParameterSweep_planes:
  assumes "ParameterSweep env uf dvs xs n c s = (Inr cube, t)"
  shows "length cube = length dvs" and "\<forall>plane\<in>set cube. length plane = length xs"
proof -
  let ?c = "num_cpus_or env c"
  let ?inner = "\<lambda>disp_val. get_map_method ?c (\<lambda>sweep_val t. eigenvals env n (uf disp_val sweep_val t)) xs"
  have o: "get_map_method ?c ?inner dvs s = (Inr cube, t)"
    using assms by (simp add: ParameterSweep_def Let_def)
  show "length cube = length dvs" using map_method_length[OF o] .
  have inner: "\<And>dv u plane. fst (?inner dv u) = Inr plane \<Longrightarrow> length plane = length xs"
  proof -
    fix dv u plane assume "fst (?inner dv u) = Inr plane"
    then have "?inner dv u = (Inr plane, snd (?inner dv u))" by (rule pair_of_fst)
    then show "length plane = length xs" by (rule map_method_length)
  qed
  have ms: "\<And>s cube t. map_seq ?inner dvs s = (Inr cube, t)
      \<Longrightarrow> \<forall>plane\<in>set cube. length plane = length xs"
  proof (induction dvs)
    case Nil
    then show ?case by simp
  next
    case (Cons dv dvs)
    obtain r1 s1 where f1: "?inner dv s = (r1, s1)" by (cases "?inner dv s")
    then obtain plane where r1: "r1 = Inr plane" using Cons.prems by (cases r1) auto
    obtain r2 s2 where f2: "map_seq ?inner dvs s1 = (r2, s2)" by (cases "map_seq ?inner dvs s1")
    then obtain rest where r2: "r2 = Inr rest" using Cons.prems f1 r1 by (cases r2) auto
    have c: "cube = plane # rest" using Cons.prems f1 r1 f2 r2 by simp
    have "length plane = length xs" using inner[of dv s plane] f1 r1 by simp
    moreover have "\<forall>plane\<in>set rest. length plane = length xs"
      using Cons.IH[of s1 rest s2] f2 r2 by simp
    ultimately show ?case using c by simp
  qed
  show "\<forall>plane\<in>set cube. length plane = length xs"
  proof (cases "?c = 1")
    case True
    then show ?thesis using o ms by (simp add: get_map_method_def)
  next
    case False
    then have cl: "collect (map (\<lambda>dv. fst (?inner dv s)) dvs) = Inr cube"
      using o unfolding get_map_method_def map_par_def by (simp del: fst_conv) auto
    show ?thesis
    proof
      fix plane assume "plane \<in> set cube"
      then obtain a where a: "a < length cube" and p: "cube ! a = plane"
        by (auto simp: in_set_conv_nth)
      have "a < length dvs" using a collect_map_nth(1)[OF cl] by simp
      then have "fst (?inner (dvs ! a) s) = Inr (cube ! a)"
        using collect_map_nth(2)[OF cl] by simp
      then show "length plane = length xs" using inner p by simp
    qed
  qed
qed

lemma linspace_length: "np_linspace a b pc = Inr dvs \<Longrightarrow> length dvs = nat pc"
  by (auto simp: np_linspace_def split: if_splits)

text \<open>
  Claim C6. When \<^verbatim>\<open>_compute_dispersion\<close> returns the energy cube (one plane per induced
  sample, one row per swept value) and the dispersion table: without \<^verbatim>\<open>levels\<close>, the
  entry for the transition \<open>(i, j)\<close> at swept index \<open>k\<close> is the maximum over the induced
  samples of \<open>E\<^sub>i - E\<^sub>j\<close> minus the minimum; with \<^verbatim>\<open>levels\<close>, whatever
  \<^verbatim>\<open>transitions\<close> is, the entry for the level \<open>j\<close> is the maximum of \<open>E\<^sub>j\<close> over the
  samples minus the minimum, which is 0 when \<open>E\<^sub>j\<close> is the same at every sample.
\<close>

theorem dispersion_is_spread:
  assumes "compute_dispersion env d p xs tr lv pc c s = (Inr (cube, disp), s')"
  shows "length cube = nat pc \<and> (\<forall>plane\<in>set cube. length plane = length xs)
    \<and> (lv = LNone \<longrightarrow>
         (\<exists>ts. tr = TSeq ts \<and> length disp = length ts
            \<and> (\<forall>m<length ts. \<forall>k<length xs.
                  disp ! m ! k
                    = spread (\<lambda>plane. level_of (plane ! k) (fst (ts ! m))
                                       - level_of (plane ! k) (snd (ts ! m))) cube)))
    \<and> (lv \<noteq> LNone \<longrightarrow>
         (\<exists>ls. lv = LSeq ls \<and> length disp = length ls
            \<and> (\<forall>m<length ls. \<forall>k<length xs.
                  disp ! m ! k = spread (\<lambda>plane. level_of (plane ! k) (ls ! m)) cube
                  \<and> ((\<forall>a\<in>set cube. \<forall>b\<in>set cube.
                         level_of (a ! k) (ls ! m) = level_of (b ! k) (ls ! m))
                       \<longrightarrow> disp ! m ! k = 0))))"
proof -
  from compute_dispersion_success[OF assms]
  obtain dvs ml t where lin: "np_linspace 0 1 pc = Inr dvs"
    and sw: "ParameterSweep env (update_func d p) dvs xs (ml + 1) c s = (Inr cube, t)"
    and ds: "dispersions_of cube (length xs) tr lv = Inr disp"
    by blast
  have len: "length cube = nat pc"
    using ParameterSweep_planes(1)[OF sw] linspace_length[OF lin] by simp
  have planes: "\<forall>plane\<in>set cube. length plane = length xs"
    using ParameterSweep_planes(2)[OF sw] .
  have tr_part: "lv = LNone \<longrightarrow>
         (\<exists>ts. tr = TSeq ts \<and> length disp = length ts
            \<and> (\<forall>m<length ts. \<forall>k<length xs.
                  disp ! m ! k
                    = spread (\<lambda>plane. level_of (plane ! k) (fst (ts ! m))
                                       - level_of (plane ! k) (snd (ts ! m))) cube))"
  proof
    assume lv: "lv = LNone"
    then obtain ts where ts: "tr = TSeq ts"
      using ds by (cases tr) (simp_all add: dispersions_of_def)
    have cl: "collect (map (transition_dispersion cube (length xs)) ts) = Inr disp"
      using ds lv ts by (simp add: dispersions_of_def)
    have "\<forall>m<length ts. \<forall>k<length xs.
                  disp ! m ! k
                    = spread (\<lambda>plane. level_of (plane ! k) (fst (ts ! m))
                                       - level_of (plane ! k) (snd (ts ! m))) cube"
    proof (intro allI impI)
      fix m k assume m: "m < length ts" and k: "k < length xs"
      have "transition_dispersion cube (length xs) (fst (ts ! m), snd (ts ! m))
          = Inr (disp ! m)"
        using collect_map_nth(2)[OF cl m] by simp
      then show "disp ! m ! k
                    = spread (\<lambda>plane. level_of (plane ! k) (fst (ts ! m))
                                       - level_of (plane ! k) (snd (ts ! m))) cube"
        using planes k by (rule transition_dispersion_char)
    qed
    then show "\<exists>ts. tr = TSeq ts \<and> length disp = length ts
            \<and> (\<forall>m<length ts. \<forall>k<length xs.
                  disp ! m ! k
                    = spread (\<lambda>plane. level_of (plane ! k) (fst (ts ! m))
                                       - level_of (plane ! k) (snd (ts ! m))) cube)"
      using ts collect_map_nth(1)[OF cl] by blast
  qed
  have lv_part: "lv \<noteq> LNone \<longrightarrow>
         (\<exists>ls. lv = LSeq ls \<and> length disp = length ls
            \<and> (\<forall>m<length ls. \<forall>k<length xs.
                  disp ! m ! k = spread (\<lambda>plane. level_of (plane ! k) (ls ! m)) cube
                  \<and> ((\<forall>a\<in>set cube. \<forall>b\<in>set cube.
                         level_of (a ! k) (ls ! m) = level_of (b ! k) (ls ! m))
                       \<longrightarrow> disp ! m ! k = 0)))"
  proof
    assume lv: "lv \<noteq> LNone"
    then obtain ls where ls: "lv = LSeq ls"
      using ds by (cases lv) (simp_all add: dispersions_of_def)
    have cl: "collect (map (level_dispersion cube (length xs)) ls) = Inr disp"
      using ds ls by (simp add: dispersions_of_def)
    have "\<forall>m<length ls. \<forall>k<length xs.
                  disp ! m ! k = spread (\<lambda>plane. level_of (plane ! k) (ls ! m)) cube
                  \<and> ((\<forall>a\<in>set cube. \<forall>b\<in>set cube.
                         level_of (a ! k) (ls ! m) = level_of (b ! k) (ls ! m))
                       \<longrightarrow> disp ! m ! k = 0)"
    proof (intro allI impI conjI)
      fix m k assume m: "m < length ls" and k: "k < length xs"
      have ld: "level_dispersion cube (length xs) (ls ! m) = Inr (disp ! m)"
        using collect_map_nth(2)[OF cl m] .
      show e: "disp ! m ! k = spread (\<lambda>plane. level_of (plane ! k) (ls ! m)) cube"
        using ld planes k by (rule level_dispersion_char(1))
      assume "\<forall>a\<in>set cube. \<forall>b\<in>set cube.
                         level_of (a ! k) (ls ! m) = level_of (b ! k) (ls ! m)"
      then have "spread (\<lambda>plane. level_of (plane ! k) (ls ! m)) cube = 0"
        using level_dispersion_char(2)[OF ld planes k] by (intro spread_constant) 
      then show "disp ! m ! k = 0" using e by simp
    qed
    then show "\<exists>ls. lv = LSeq ls \<and> length disp = length ls
            \<and> (\<forall>m<length ls. \<forall>k<length xs.
                  disp ! m ! k = spread (\<lambda>plane. level_of (plane ! k) (ls ! m)) cube
                  \<and> ((\<forall>a\<in>set cube. \<forall>b\<in>set cube.
                         level_of (a ! k) (ls ! m) = level_of (b ! k) (ls ! m))
                       \<longrightarrow> disp ! m ! k = 0))"
      using ls collect_map_nth(1)[OF cl] by blast
  qed
  show ?thesis using len planes tr_part lv_part by blast
qed

theorem dispersion_is_spread_witness:
  "compute_dispersion toy_env ''ng'' ''x'' [0, 10] (TSeq [(0, 1)]) LNone 2 (Some 1) toy_attrs
     = (Inr ([[[0, 1], [1, 10]], [[0, 2], [2, 10]]], [[1, 1]]), toy_attrs)
   \<and> [[1, 1::real]] ! 0 ! 1
       = spread (\<lambda>plane. level_of (plane ! 1) 0 - level_of (plane ! 1) 1)
           [[[0, 1], [1, 10]], [[0, 2], [2, 10]]]
   \<and> compute_dispersion toy_env ''ng'' ''x'' [0, 10] (TSeq [(0, 1)]) (LSeq [0]) 2 (Some 1)
        toy_attrs
     = (Inr ([[[0], [1]], [[0], [2]]], [[0, 1]]), toy_attrs)
   \<and> [[0, 1::real]] ! 0 ! 0 = spread (\<lambda>plane. level_of (plane ! 0) 0) [[[0], [1]], [[0], [2]]]
   \<and> [[0, 1::real]] ! 0 ! 1 = spread (\<lambda>plane. level_of (plane ! 1) 0) [[[0], [1]], [[0], [2]]]"
proof -
  have c: "Some 1 = Some (1::int) \<or> Some 1 = Some (4::int)" by simp
  note a = toy_compute_transition[OF c]
  note b = toy_compute_level[OF c, of "TSeq [(0, 1)]"]
  show ?thesis
    using dispersion_is_spread[OF a] dispersion_is_spread[OF b] a b
    by (simp add: All_less_Suc)
qed

lemma matrixelement_table_snd: "snd (matrixelement_table env operator evecs n s) = s"
  by (simp add: matrixelement_table_def eigensys_def split: option.splits sum.splits prod.splits)




lemma sum_list_upt: "(\<Sum>a\<leftarrow>[0..<d]. f a) = (\<Sum>a = 0..<d. f a)"
  by (simp add: interv_sum_list_conv_sum_set_nat)

lemma is_hermitian_nth:
  assumes "is_hermitian A" and "a < length A" and "b < length A"
  shows "A ! b ! a = cnj (A ! a ! b)"
proof -
  have h: "\<forall>a\<in>set [0..<length A]. \<forall>b\<in>set [0..<length A]. A ! b ! a = cnj (A ! a ! b)"
    using assms(1) unfolding is_hermitian_def list_all_iff .
  have "a \<in> set [0..<length A]" and "b \<in> set [0..<length A]"
    using assms(2,3) by simp_all
  then show ?thesis using h by blast
qed

lemma matrix_element_sum:
  "matrix_element A V i j
     = (\<Sum>a = 0..<length V. \<Sum>b = 0..<length V. cnj (V ! a ! i) * (A ! a ! b) * (V ! b ! j))"
  unfolding matrix_element_def sum_list_upt ..

lemma cnj_triple: "cnj (cnj x * y * z) = x * cnj y * cnj z"
  by simp

lemma triple_reverse: "(x::complex) * y * z = z * y * x"
  by (simp add: mult.commute mult.left_commute)

lemma matrix_element_hermitian:
  assumes "is_hermitian A" and "length A = length V"
  shows "matrix_element A V j i = cnj (matrix_element A V i j)"
proof -
  let ?d = "length V"
  have e1: "cnj (matrix_element A V i j)
      = (\<Sum>a = 0..<?d. \<Sum>b = 0..<?d. cnj (cnj (V ! a ! i) * (A ! a ! b) * (V ! b ! j)))"
    unfolding matrix_element_sum cnj_sum ..
  have e2: "(\<Sum>a = 0..<?d. \<Sum>b = 0..<?d. cnj (cnj (V ! a ! i) * (A ! a ! b) * (V ! b ! j)))
      = (\<Sum>a = 0..<?d. \<Sum>b = 0..<?d. cnj (V ! b ! j) * (A ! b ! a) * (V ! a ! i))"
  proof (intro sum.cong refl)
    fix a b assume "a \<in> {0..<?d}" and "b \<in> {0..<?d}"
    then have "a < length A" and "b < length A" using assms(2) by simp_all
    then have h: "A ! b ! a = cnj (A ! a ! b)"
      using assms(1) by (rule is_hermitian_nth[rotated])
    have "cnj (cnj (V ! a ! i) * (A ! a ! b) * (V ! b ! j))
        = V ! a ! i * cnj (A ! a ! b) * cnj (V ! b ! j)"
      by (rule cnj_triple)
    also have "\<dots> = cnj (V ! b ! j) * cnj (A ! a ! b) * (V ! a ! i)"
      by (rule triple_reverse)
    finally show "cnj (cnj (V ! a ! i) * (A ! a ! b) * (V ! b ! j))
        = cnj (V ! b ! j) * (A ! b ! a) * (V ! a ! i)"
      unfolding h .
  qed
  have e3: "(\<Sum>a = 0..<?d. \<Sum>b = 0..<?d. cnj (V ! b ! j) * (A ! b ! a) * (V ! a ! i))
      = (\<Sum>b = 0..<?d. \<Sum>a = 0..<?d. cnj (V ! b ! j) * (A ! b ! a) * (V ! a ! i))"
    by (rule sum.swap)
  have e4: "matrix_element A V j i
      = (\<Sum>b = 0..<?d. \<Sum>a = 0..<?d. cnj (V ! b ! j) * (A ! b ! a) * (V ! a ! i))"
    by (rule matrix_element_sum)
  show ?thesis by (simp only: e1 e2 e3 e4)
qed

lemma get_matrixelement_table_char:
  assumes "get_matrixelement_table A V = Inr table"
  shows "length A = length V"
    and "table = map (\<lambda>i. map (\<lambda>j. matrix_element A V i j) [0..<ncols_of V]) [0..<ncols_of V]"
  using assms by (auto simp: get_matrixelement_table_def Let_def split: if_splits)

lemma np_setitem_char:
  assumes "np_setitem N table = Inr out"
  shows "length out = N" and "\<And>i. i < N \<Longrightarrow> length (out ! i) = N"
    and "\<And>i j. length table = N \<Longrightarrow> ncols_of table = N \<Longrightarrow> i < N \<Longrightarrow> j < N
           \<Longrightarrow> out ! i ! j = table ! i ! j"
proof -
  have o: "out = map (\<lambda>i. map (\<lambda>j. table ! (if length table = 1 then 0 else i)
                                        ! (if ncols_of table = 1 then 0 else j)) [0..<N]) [0..<N]"
    using assms by (auto simp: np_setitem_def Let_def split: if_splits)
  show "length out = N" using o by simp
  show "\<And>i. i < N \<Longrightarrow> length (out ! i) = N" using o by simp
  show "\<And>i j. length table = N \<Longrightarrow> ncols_of table = N \<Longrightarrow> i < N \<Longrightarrow> j < N
           \<Longrightarrow> out ! i ! j = table ! i ! j"
    using o by auto
qed

lemma esys_calc_ncols:
  assumes "esys_calc env s n = Inr (evals, evecs)" and "lapack_wf env"
  shows "ncols_of evecs = nat n" and "0 < n"
proof -
  let ?M = "hamiltonian env s"
  from assms(1) obtain w v where e: "eigh env ?M (0, n - 1) = Inr (w, v)"
    and o: "order_eigensystem w v = (evals, evecs)"
    by (auto simp: esys_calc_def Let_def split: sum.splits)
  from e obtain w0 v0 where l: "lapack env ?M = Some (w0, v0)"
    and r: "0 \<le> n - 1" "n - 1 < int (length ?M)"
    and w: "w = slice 0 (n - 1) w0" and v: "v = map (slice 0 (n - 1)) v0"
    by (auto simp: eigh_def split: if_splits option.splits)
  have wf: "length w0 = length ?M" "length v0 = length ?M"
    using assms(2) l by (auto simp: lapack_wf_def)
  show "0 < n" using r by simp
  have lw: "length w = nat n" using w wf r by (simp add: slice_def)
  have "v \<noteq> []" using v wf r by auto
  then obtain row rest where vr: "v = row # rest" by (cases v) auto
  have "evecs = map (\<lambda>row. map (\<lambda>k. row ! k) (argsort w)) v"
    using o by (simp add: order_eigensystem_def Let_def)
  then show "ncols_of evecs = nat n"
    using vr lw by (simp add: ncols_of_def length_argsort)
qed

lemma matelem_seq:
  "map_seq (matelem_step env operator n) vs s
     = (collect (map (\<lambda>v. fst (matelem_step env operator n v s)) vs), s)"
proof (induction vs)
  case Nil
  show ?case by simp
next
  case (Cons v vs)
  have st: "snd (matelem_step env operator n v s) = s"
    using matrixelement_table_snd[of env operator "Some v" n s]
    by (auto simp add: matelem_step_def split: prod.splits sum.splits)
  obtain r where r: "matelem_step env operator n v s = (r, s)"
    using st by (cases "matelem_step env operator n v s") simp
  show ?case using r Cons.IH by (simp split: sum.splits)
qed

lemma matelem_step_char:
  assumes "fst (matelem_step env operator n v s) = Inr out"
  shows "\<exists>om table. call_operator env s operator = Inr om
           \<and> get_matrixelement_table om v = Inr table
           \<and> np_setitem (nat n) table = Inr out"
  using assms
  by (auto simp: matelem_step_def matrixelement_table_def split: sum.splits prod.splits)

lemma sweep_value_states:
  assumes "sweep_value env p xs n False True s = Inr sd"
  shows "\<exists>esys. collect (map (\<lambda>v. esys_calc env (setattr s p v) n) xs) = Inr esys
           \<and> state_table sd = Some (map snd esys) \<and> matrixelem_table sd = None"
  using assms
  by (auto simp: sweep_value_def sweep_tables_def split: sum.splits)

lemma matelements_success:
  assumes "get_matelements_vs_paramvals env operator p xs n c s = (Inr sd, s')"
  shows "\<exists>sd0 esys table.
           fst (get_spectrum_vs_paramvals env p xs n False True c s) = Inr sd0
         \<and> collect (map (\<lambda>v. esys_calc env (setattr s p v) n) xs) = Inr esys
         \<and> state_table sd0 = Some (map snd esys) \<and> matrixelem_table sd0 = None
         \<and> collect (map (\<lambda>v. fst (matelem_step env operator n v s)) (map snd esys)) = Inr table
         \<and> sd = sd0\<lparr>matrixelem_table := Some table\<rparr> \<and> s' = s"
proof -
  let ?c = "num_cpus_or env c"
  let ?sweep = "get_spectrum_vs_paramvals env p xs n False True (Some ?c) s"
  obtain r0 s1 where sw: "?sweep = (r0, s1)" by (cases ?sweep)
  from assms sw obtain sd0 where r0: "r0 = Inr sd0"
    by (cases r0) (auto simp: get_matelements_vs_paramvals_def Let_def)
  have s1: "s1 = s" using sweep_snd sw r0 by blast
  have sv: "sweep_value env p xs n False True s = Inr sd0"
    using sweep_fst[of env p xs n False True "Some ?c" s] sw r0 by simp
  then have f: "fst (get_spectrum_vs_paramvals env p xs n False True c s) = Inr sd0"
    by (simp add: sweep_fst)
  from sweep_value_states[OF sv] obtain esys
    where cl: "collect (map (\<lambda>v. esys_calc env (setattr s p v) n) xs) = Inr esys"
      and st: "state_table sd0 = Some (map snd esys)" and mt: "matrixelem_table sd0 = None"
    by blast
  have len: "length esys = length xs" using collect_map_nth(1)[OF cl] .
  have "\<exists>table. collect (map (\<lambda>v. fst (matelem_step env operator n v s)) (map snd esys))
            = Inr table \<and> sd = sd0\<lparr>matrixelem_table := Some table\<rparr> \<and> s' = s"
    using assms sw r0 s1 st len
    by (auto simp: get_matelements_vs_paramvals_def Let_def matelem_seq
        split: if_splits sum.splits)
  then show ?thesis using f cl st mt by blast
qed

lemma table_entries:
  assumes es: "esys_calc env s0 n = Inr (evals, v)" and wf: "lapack_wf env"
    and gm: "get_matrixelement_table om v = Inr table"
    and ns: "np_setitem (nat n) table = Inr out"
  shows "length out = nat n"
    and "\<And>i. i < nat n \<Longrightarrow> length (out ! i) = nat n"
    and "\<And>i j. i < nat n \<Longrightarrow> j < nat n \<Longrightarrow> out ! i ! j = matrix_element om v i j"
    and "\<And>i j. is_hermitian om \<Longrightarrow> i < nat n \<Longrightarrow> j < nat n
           \<Longrightarrow> out ! j ! i = cnj (out ! i ! j)"
proof -
  have nc: "ncols_of v = nat n" and pos: "0 < n"
    using esys_calc_ncols[OF es wf] by simp_all
  have t: "table = map (\<lambda>i. map (\<lambda>j. matrix_element om v i j) [0..<nat n]) [0..<nat n]"
    using get_matrixelement_table_char(2)[OF gm] nc by simp
  have lt: "length table = nat n" using t by simp
  have "table \<noteq> []" using lt pos by auto
  then obtain row rest where tr: "table = row # rest" by (cases table) auto
  have "row = table ! 0" using tr by simp
  also have "\<dots> = map (\<lambda>j. matrix_element om v 0 j) [0..<nat n]"
    using pos by (subst t) simp
  finally have "length row = nat n" by simp
  then have ct: "ncols_of table = nat n" using tr by (simp add: ncols_of_def)
  show "length out = nat n" using np_setitem_char(1)[OF ns] .
  show "\<And>i. i < nat n \<Longrightarrow> length (out ! i) = nat n" using np_setitem_char(2)[OF ns] .
  show e: "\<And>i j. i < nat n \<Longrightarrow> j < nat n \<Longrightarrow> out ! i ! j = matrix_element om v i j"
  proof -
    fix i j assume i: "i < nat n" and j: "j < nat n"
    have "out ! i ! j = table ! i ! j" using np_setitem_char(3)[OF ns lt ct i j] .
    also have "\<dots> = matrix_element om v i j" using i j by (subst t) simp
    finally show "out ! i ! j = matrix_element om v i j" .
  qed
  show "\<And>i j. is_hermitian om \<Longrightarrow> i < nat n \<Longrightarrow> j < nat n
           \<Longrightarrow> out ! j ! i = cnj (out ! i ! j)"
  proof -
    fix i j assume h: "is_hermitian om" and i: "i < nat n" and j: "j < nat n"
    have l: "length om = length v" using get_matrixelement_table_char(1)[OF gm] .
    show "out ! j ! i = cnj (out ! i ! j)"
      using e[OF j i] e[OF i j] matrix_element_hermitian[OF h l, of j i] by simp
  qed
qed

text \<open>
  Claim C8. When \<^verbatim>\<open>get_matelements_vs_paramvals\<close> returns, it returns the container of
  the eigenvector sweep with a matrix-element table attached and has changed no
  attribute. The table has one \<open>n \<times> n\<close> matrix per parameter value (with \<open>n\<close> the
  requested count); its entry \<open>[k][i][j]\<close> is the matrix element of the named operator
  between the eigenvectors \<open>i\<close> and \<open>j\<close> computed at parameter point \<open>k\<close>, the operator
  being evaluated on the system as it is after the sweep (the parameter restored); and
  for a Hermitian operator matrix the entry \<open>[k][j][i]\<close> is the conjugate of \<open>[k][i][j]\<close>.
  The numerical kernel is assumed to return results of the documented shape.
\<close>

theorem matelements_vs_paramvals_table:
  assumes "get_matelements_vs_paramvals env operator p xs n c s = (Inr sd, s')"
    and "lapack_wf env"
  shows "\<exists>states table.
      fst (get_spectrum_vs_paramvals env p xs n False True c s)
        = Inr (sd\<lparr>matrixelem_table := None\<rparr>)
    \<and> state_table sd = Some states \<and> matrixelem_table sd = Some table \<and> s' = s
    \<and> length states = length xs \<and> length table = length xs
    \<and> (\<forall>k<length xs.
         (\<exists>evals. esys_calc env (setattr s p (xs ! k)) n = Inr (evals, states ! k))
       \<and> length (table ! k) = nat n
       \<and> (\<exists>om. call_operator env s operator = Inr om
           \<and> (\<forall>i<nat n. length (table ! k ! i) = nat n
               \<and> (\<forall>j<nat n. table ! k ! i ! j = matrix_element om (states ! k) i j
                    \<and> (is_hermitian om \<longrightarrow> table ! k ! j ! i = cnj (table ! k ! i ! j))))))"
proof -
  from matelements_success[OF assms(1)] obtain sd0 esys table
    where f: "fst (get_spectrum_vs_paramvals env p xs n False True c s) = Inr sd0"
      and cl: "collect (map (\<lambda>v. esys_calc env (setattr s p v) n) xs) = Inr esys"
      and st: "state_table sd0 = Some (map snd esys)" and mt: "matrixelem_table sd0 = None"
      and ct: "collect (map (\<lambda>v. fst (matelem_step env operator n v s)) (map snd esys))
                 = Inr table"
      and sd: "sd = sd0\<lparr>matrixelem_table := Some table\<rparr>" and s': "s' = s"
    by blast
  let ?states = "map snd esys"
  have len: "length esys = length xs" using collect_map_nth(1)[OF cl] .
  have lt: "length table = length xs" using collect_map_nth(1)[OF ct] len by simp
  have sd0: "sd\<lparr>matrixelem_table := None\<rparr> = sd0" using sd mt by simp
  have per_k: "\<forall>k<length xs.
         (\<exists>evals. esys_calc env (setattr s p (xs ! k)) n = Inr (evals, ?states ! k))
       \<and> length (table ! k) = nat n
       \<and> (\<exists>om. call_operator env s operator = Inr om
           \<and> (\<forall>i<nat n. length (table ! k ! i) = nat n
               \<and> (\<forall>j<nat n. table ! k ! i ! j = matrix_element om (?states ! k) i j
                    \<and> (is_hermitian om \<longrightarrow> table ! k ! j ! i = cnj (table ! k ! i ! j)))))"
  proof (intro allI impI)
    fix k assume k: "k < length xs"
    have es: "esys_calc env (setattr s p (xs ! k)) n = Inr (fst (esys ! k), ?states ! k)"
      using collect_map_nth(2)[OF cl k] k len by simp
    have "fst (matelem_step env operator n (?states ! k) s) = Inr (table ! k)"
      using collect_map_nth(2)[OF ct, of k] k len by simp
    from matelem_step_char[OF this] obtain om tb
      where co: "call_operator env s operator = Inr om"
        and gm: "get_matrixelement_table om (?states ! k) = Inr tb"
        and ns: "np_setitem (nat n) tb = Inr (table ! k)"
      by blast
    note te = table_entries[OF es assms(2) gm ns]
    have "\<forall>i<nat n. length (table ! k ! i) = nat n
               \<and> (\<forall>j<nat n. table ! k ! i ! j = matrix_element om (?states ! k) i j
                    \<and> (is_hermitian om \<longrightarrow> table ! k ! j ! i = cnj (table ! k ! i ! j)))"
      using te(2) te(3) te(4) by blast
    then show "(\<exists>evals. esys_calc env (setattr s p (xs ! k)) n = Inr (evals, ?states ! k))
       \<and> length (table ! k) = nat n
       \<and> (\<exists>om. call_operator env s operator = Inr om
           \<and> (\<forall>i<nat n. length (table ! k ! i) = nat n
               \<and> (\<forall>j<nat n. table ! k ! i ! j = matrix_element om (?states ! k) i j
                    \<and> (is_hermitian om \<longrightarrow> table ! k ! j ! i = cnj (table ! k ! i ! j)))))"
      using es te(1) co by blast
  qed
  have "fst (get_spectrum_vs_paramvals env p xs n False True c s)
        = Inr (sd\<lparr>matrixelem_table := None\<rparr>)
    \<and> state_table sd = Some ?states \<and> matrixelem_table sd = Some table \<and> s' = s
    \<and> length ?states = length xs \<and> length table = length xs"
    using f sd0 sd st s' len lt by simp
  then show ?thesis using per_k by blast
qed

lemma toy_lapack_wf: "lapack_wf toy_env"
  by (auto simp: lapack_wf_def toy_env_def diag_lapack_def Let_def length_argsort
      split: if_splits)

lemma sy_hermitian: "is_hermitian sy_matrix"
  by (simp add: is_hermitian_def sy_matrix_def upt_0_2)

lemma toy_sweep_states:
  "get_spectrum_vs_paramvals toy_env ''x'' [2, 0] 2 False True c toy_attrs
   = (Inr \<lparr>energy_table = [[1, 2], [0, 1]], system_params = [(''x'', 5), (''ng'', 0)],
       param_name = ''x'', param_vals = [2, 0],
       state_table = Some [[[0, 1], [1, 0]], [[1, 0], [0, 1]]], matrixelem_table = None\<rparr>,
      toy_attrs)"
  (is "?call = (Inr ?sd, _)")
proof -
  have "sweep_value toy_env ''x'' [2, 0] 2 False True toy_attrs = Inr ?sd"
    by (simp add: sweep_value_def sweep_tables_def getattr_def toy_attrs_simps
      toy_esys_calc_2 toy_initdata)
  then have "fst ?call = Inr ?sd" by (simp add: sweep_fst)
  then have "?call = (Inr ?sd, snd ?call)" by (rule pair_of_fst)
  then show ?thesis using sweep_snd by metis
qed

lemma toy_sy_table_swapped:
  "get_matrixelement_table sy_matrix [[0, 1], [1, 0]] = Inr [[0, \<i>], [- \<i>, 0]]"
  by (simp add: get_matrixelement_table_def ncols_of_def is_square_def sy_matrix_def
      matrix_element_def upt_0_2)

lemma toy_sy_table_identity:
  "get_matrixelement_table sy_matrix [[1, 0], [0, 1]] = Inr [[0, - \<i>], [\<i>, 0]]"
  by (simp add: get_matrixelement_table_def ncols_of_def is_square_def sy_matrix_def
      matrix_element_def upt_0_2)

lemma toy_setitem: "np_setitem (Suc (Suc 0)) [[a, b], [c, d]] = Inr [[a, b], [c, d]]"
  by (simp add: np_setitem_def ncols_of_def upt_0_2[unfolded numeral_2_eq_2] Let_def)

lemma toy_call_sy: "call_operator toy_env toy_attrs ''sy_operator'' = Inr sy_matrix"
  by (simp add: call_operator_def toy_env_def toy_attrs_def)

lemma toy_matelements:
  "get_matelements_vs_paramvals toy_env ''sy_operator'' ''x'' [2, 0] 2 (Some 1) toy_attrs
   = (Inr \<lparr>energy_table = [[1, 2], [0, 1]], system_params = [(''x'', 5), (''ng'', 0)],
       param_name = ''x'', param_vals = [2, 0],
       state_table = Some [[[0, 1], [1, 0]], [[1, 0], [0, 1]]],
       matrixelem_table = Some [[[0, \<i>], [- \<i>, 0]], [[0, - \<i>], [\<i>, 0]]]\<rparr>,
      toy_attrs)"
  by (simp add: get_matelements_vs_paramvals_def toy_sweep_states matelem_seq
      matelem_step_def matrixelement_table_def toy_call_sy toy_sy_table_swapped
      toy_sy_table_identity toy_setitem numeral_2_eq_2)

theorem matelements_vs_paramvals_table_witness:
  "get_matelements_vs_paramvals toy_env ''sy_operator'' ''x'' [2, 0] 2 (Some 1) toy_attrs
   = (Inr \<lparr>energy_table = [[1, 2], [0, 1]], system_params = [(''x'', 5), (''ng'', 0)],
       param_name = ''x'', param_vals = [2, 0],
       state_table = Some [[[0, 1], [1, 0]], [[1, 0], [0, 1]]],
       matrixelem_table = Some [[[0, \<i>], [- \<i>, 0]], [[0, - \<i>], [\<i>, 0]]]\<rparr>,
      toy_attrs)
   \<and> lapack_wf toy_env \<and> is_hermitian sy_matrix
   \<and> [[[0, \<i>], [- \<i>, 0]], [[0, - \<i>], [\<i>, 0]]] ! 0 ! 0 ! 1
       = matrix_element sy_matrix ([[[0, 1], [1, 0]], [[1, 0], [0, 1]]] ! 0) 0 1
   \<and> [[[0, \<i>], [- \<i>, 0]], [[0, - \<i>], [\<i>, 0]]] ! 0 ! 1 ! 0
       = cnj ([[[0, \<i>], [- \<i>, 0]], [[0, - \<i>], [\<i>, 0]]] ! 0 ! 0 ! 1)"
proof -
  let ?states = "[[[0, 1], [1, 0]], [[1, 0], [0, 1::complex]]]"
  let ?table = "[[[0, \<i>], [- \<i>, 0]], [[0, - \<i>], [\<i>, 0]]]"
  let ?sd = "\<lparr>energy_table = [[1, 2], [0, 1]], system_params = [(''x'', 5), (''ng'', 0)],
       param_name = ''x'', param_vals = [2, 0],
       state_table = Some ?states, matrixelem_table = Some ?table\<rparr>"
  from matelements_vs_paramvals_table[OF toy_matelements toy_lapack_wf]
  obtain states table where st: "state_table ?sd = Some states"
    and tb: "matrixelem_table ?sd = Some table"
    and k: "\<forall>k<length [2, 0::real].
         (\<exists>evals. esys_calc toy_env (setattr toy_attrs ''x'' ([2, 0] ! k)) 2
                    = Inr (evals, states ! k))
       \<and> length (table ! k) = nat 2
       \<and> (\<exists>om. call_operator toy_env toy_attrs ''sy_operator'' = Inr om
           \<and> (\<forall>i<nat 2. length (table ! k ! i) = nat 2
               \<and> (\<forall>j<nat 2. table ! k ! i ! j = matrix_element om (states ! k) i j
                    \<and> (is_hermitian om \<longrightarrow> table ! k ! j ! i = cnj (table ! k ! i ! j)))))"
    by (elim exE conjE)
  have states: "states = ?states" using st by simp
  have table: "table = ?table" using tb by simp
  have k0: "0 < length [2, 0::real]" by simp
  have i0: "(0::nat) < nat 2" and j1: "(1::nat) < nat 2" by simp_all
  from k[rule_format, OF k0] obtain om
    where om: "call_operator toy_env toy_attrs ''sy_operator'' = Inr om"
      and e: "\<forall>i<nat 2. length (table ! 0 ! i) = nat 2
               \<and> (\<forall>j<nat 2. table ! 0 ! i ! j = matrix_element om (states ! 0) i j
                    \<and> (is_hermitian om \<longrightarrow> table ! 0 ! j ! i = cnj (table ! 0 ! i ! j)))"
    by (elim exE conjE)
  have "(Inr sy_matrix :: error + cmatrix) = Inr om" using om unfolding toy_call_sy .
  then have o: "om = sy_matrix" by (simp only: sum.inject)
  note ij = e[rule_format, OF i0, THEN conjunct2, rule_format, OF j1]
  have e1: "table ! 0 ! 0 ! 1 = matrix_element sy_matrix (states ! 0) 0 1"
    using ij[THEN conjunct1] unfolding o .
  have e2: "table ! 0 ! 1 ! 0 = cnj (table ! 0 ! 0 ! 1)"
    using ij[THEN conjunct2] sy_hermitian unfolding o by (rule mp)
  show ?thesis
    by (intro conjI)
       (rule toy_matelements toy_lapack_wf sy_hermitian e1[unfolded states table]
          e2[unfolded table])+
qed

end
